theory Spec2Isabelle
  imports Main "HOL-Library.Sublist"
begin

section \<open>Python primitives used by the experiment pipeline\<close>

text \<open>
  Exceptions are values. \<open>ValueError\<close> carries its message; the others are the implicit
  failures of dictionary access, list indexing, attribute access, string joining, the
  modulus and file opening.
\<close>

datatype error =
    ValueError string
  | KeyError
  | IndexError
  | AttributeError
  | TypeError
  | ZeroDivisionError
  | FileNotFoundError string
  | GenerationError

text \<open>\<open>xs[:k]\<close> and \<open>xs[k:]\<close>: a negative bound counts from the end, and both clamp.\<close>

definition py_slice_to :: "'a list \<Rightarrow> int \<Rightarrow> 'a list" where
  "py_slice_to xs k =
     (if k < 0 then take (nat (int (length xs) + k)) xs else take (nat k) xs)"

definition py_slice_from :: "'a list \<Rightarrow> int \<Rightarrow> 'a list" where
  "py_slice_from xs k =
     (if k < 0 then drop (nat (int (length xs) + k)) xs else drop (nat k) xs)"

text \<open>\<open>xs[:k]\<close> where \<open>k\<close> may be \<open>None\<close> (the whole list).\<close>

definition py_slice_to_opt :: "'a list \<Rightarrow> int option \<Rightarrow> 'a list" where
  "py_slice_to_opt xs k = (case k of None \<Rightarrow> xs | Some n \<Rightarrow> py_slice_to xs n)"

text \<open>
  \<open>xs[i]\<close>. An index from \<open>-len(xs)\<close> up to \<open>-1\<close> addresses the list from its end;
  anything outside \<open>-len(xs) .. len(xs) - 1\<close> is an IndexError.
\<close>

definition py_index :: "'a list \<Rightarrow> int \<Rightarrow> error + 'a" where
  "py_index xs i =
     (if 0 \<le> i \<and> i < int (length xs) then Inr (xs ! nat i)
      else if i < 0 \<and> - int (length xs) \<le> i then Inr (xs ! nat (int (length xs) + i))
      else Inl IndexError)"

text \<open>\<open>s.find(sub)\<close>: the index of the first occurrence, or \<open>-1\<close>.\<close>

fun find_from :: "string \<Rightarrow> string \<Rightarrow> nat \<Rightarrow> int" where
  "find_from sub [] i = (if sub = [] then int i else - 1)"
| "find_from sub (c # cs) i =
     (if prefix sub (c # cs) then int i else find_from sub cs (Suc i))"

definition py_find :: "string \<Rightarrow> string \<Rightarrow> int" where
  "py_find s sub = find_from sub s 0"

text \<open>
  \<open>s.strip()\<close>. Strings are lists of 8-bit characters; the whitespace removed is the
  ASCII whitespace of \<open>str.isspace\<close>: codes 9 to 13 and 28 to 32.
\<close>

definition is_space :: "char \<Rightarrow> bool" where
  "is_space c = (let n = (of_char c :: nat) in (9 \<le> n \<and> n \<le> 13) \<or> (28 \<le> n \<and> n \<le> 32))"

definition py_strip :: "string \<Rightarrow> string" where
  "py_strip s = rev (dropWhile is_space (rev (dropWhile is_space s)))"

text \<open>
  \<open>sep.join(items)\<close> on a list whose items are Python values: every item must be a
  string, otherwise TypeError. The pipeline's items are strings or document dictionaries.
\<close>

record document =
  doc_text :: string
  title :: string
  full_corpus_idx :: int

datatype py_item = PyStr string | PyDict document

fun join_strs :: "string \<Rightarrow> string list \<Rightarrow> string" where
  "join_strs sep [] = []"
| "join_strs sep [s] = s"
| "join_strs sep (s # t # ts) = s @ sep @ join_strs sep (t # ts)"

fun all_strs :: "py_item list \<Rightarrow> string list option" where
  "all_strs [] = Some []"
| "all_strs (PyStr s # xs) = (case all_strs xs of None \<Rightarrow> None | Some ss \<Rightarrow> Some (s # ss))"
| "all_strs (PyDict d # xs) = None"

definition py_join :: "string \<Rightarrow> py_item list \<Rightarrow> error + string" where
  "py_join sep items =
     (case all_strs items of None \<Rightarrow> Inl TypeError | Some ss \<Rightarrow> Inr (join_strs sep ss))"

section \<open>Experiment configuration (config.py)\<close>

record ExperimentConfig =
  llm_id :: string
  model_max_length :: int
  device :: string
  batch_size :: int
  experiment_type :: string
  load_full_corpus :: bool
  use_random :: bool
  use_adore :: bool
  use_bm25 :: bool
  gold_position :: "int option"
  num_documents_in_context :: int
  get_documents_without_answer :: bool
  num_retrieved_documents :: "int option"
  num_random_documents :: "int option"
  put_retrieved_first :: bool
  use_corpus_nonsense :: bool
  num_main_documents :: "int option"
  num_other_documents :: "int option"
  put_main_first :: bool
  use_test :: bool
  corpus_path :: string
  train_data_path :: string
  test_data_path :: string
  contriever_results_path :: string
  bm25_results_path :: string
  adore_results_path :: string
  random_results_path :: string
  nonsense_results_path :: string
  reddit_results_path :: string
  output_dir :: string
  save_every :: int

text \<open>The dataclass defaults.\<close>

definition default_config :: ExperimentConfig where
  "default_config = \<lparr>
     llm_id = ''meta-llama/Llama-2-7b-chat-hf'',
     model_max_length = 4096,
     device = ''cuda'',
     batch_size = 32,
     experiment_type = ''classic'',
     load_full_corpus = True,
     use_random = False,
     use_adore = False,
     use_bm25 = False,
     gold_position = None,
     num_documents_in_context = 7,
     get_documents_without_answer = True,
     num_retrieved_documents = None,
     num_random_documents = None,
     put_retrieved_first = False,
     use_corpus_nonsense = False,
     num_main_documents = None,
     num_other_documents = None,
     put_main_first = False,
     use_test = False,
     corpus_path = ''data/corpus.json'',
     train_data_path = ''data/10k_train_dataset.json'',
     test_data_path = ''data/test_dataset.json'',
     contriever_results_path = ''data/contriever_search_results_at150.pkl'',
     bm25_results_path = ''data/bm25_test_search_results_at250.pkl'',
     adore_results_path = ''data/adore_search_results_at200.pkl'',
     random_results_path = ''data/10k_random_results_at60.pkl'',
     nonsense_results_path = ''data/nonsense_random_results.pkl'',
     reddit_results_path = ''data/reddit_test_random_results.pkl'',
     output_dir = ''experiment_results'',
     save_every = 250 \<rparr>"

definition validate :: "ExperimentConfig \<Rightarrow> error + unit" where
  "validate c =
     (if experiment_type c \<notin> set [''classic'', ''mixed'', ''multi_corpus'', ''only_query'']
      then Inl (ValueError ''Invalid experiment type'')
      else if experiment_type c = ''mixed''
              \<and> (num_retrieved_documents c = None \<or> num_random_documents c = None)
      then Inl (ValueError ''Mixed experiments require retrieved and random document counts'')
      else if experiment_type c = ''multi_corpus''
              \<and> (num_main_documents c = None \<or> num_other_documents c = None)
      then Inl (ValueError ''Multi-corpus experiments require main and other document counts'')
      else Inr ())"

section \<open>Examples, retrieval tables and the manager's state\<close>

record example =
  example_id :: string
  question :: string
  answers :: "string list"
  idx_gold_in_corpus :: "int option"

text \<open>
  A retrieval table maps an example identifier to its entry; component 0 of the entry is
  the ranked list of document indices, which is all the pipeline reads.
\<close>

type_synonym ranking_table = "string \<rightharpoonup> int list"

text \<open>
  The manager's attributes. An attribute that \<open>_load_data\<close> did not set is \<open>None\<close>, and
  reading it raises AttributeError. The two functions of the module
  \<open>normalize_answers\<close> and the text generator are collaborators taken as parameters.
\<close>

record manager =
  config :: ExperimentConfig
  llm_generate :: "string \<Rightarrow> error + string"
  normalize_answer_fn :: "string \<Rightarrow> string"
  is_answer_in_text_fn :: "string \<Rightarrow> string list \<Rightarrow> bool"
  dataset :: "example list"
  corpus :: "document list option"
  search_results :: "ranking_table option"
  retriever_results :: "ranking_table option"
  random_results :: "ranking_table option"
  main_results :: "ranking_table option"
  other_results :: "ranking_table option"

text \<open>\<open>self.<table>[idx][0]\<close>.\<close>

definition table_lookup :: "ranking_table option \<Rightarrow> string \<Rightarrow> error + int list" where
  "table_lookup t idx =
     (case t of None \<Rightarrow> Inl AttributeError
      | Some tbl \<Rightarrow> (case tbl idx of None \<Rightarrow> Inl KeyError | Some r \<Rightarrow> Inr r))"

text \<open>\<open>self.corpus[int(doc_idx)]\<close>.\<close>

definition corpus_get :: "document list option \<Rightarrow> int \<Rightarrow> error + document" where
  "corpus_get c i = (case c of None \<Rightarrow> Inl AttributeError | Some docs \<Rightarrow> py_index docs i)"

section \<open>Context assembly (experiment_manager.py)\<close>

text \<open>The gold splice: \<open>xs[:g] + [gold_idx] + xs[g:]\<close>.\<close>

definition splice_gold :: "int list \<Rightarrow> int \<Rightarrow> int \<Rightarrow> int list" where
  "splice_gold xs g gold = py_slice_to xs g @ [gold] @ py_slice_from xs g"

text \<open>
  The loop of \<open>_get_classic_documents\<close>: each index is resolved against the corpus, and
  the document is appended when the filter is off or its text holds no answer.
\<close>

fun classic_loop ::
  "document list option \<Rightarrow> bool \<Rightarrow> (string \<Rightarrow> bool) \<Rightarrow> int list \<Rightarrow> document list
     \<Rightarrow> error + document list" where
  "classic_loop c flt has_ans [] documents = Inr documents"
| "classic_loop c flt has_ans (doc_idx # rest) documents =
     (case corpus_get c doc_idx of
        Inl e \<Rightarrow> Inl e
      | Inr doc \<Rightarrow>
          if \<not> flt \<or> \<not> has_ans (doc_text doc)
          then classic_loop c flt has_ans rest (documents @ [doc])
          else classic_loop c flt has_ans rest documents)"

text \<open>The index list the classic family walks: the ranking, gold-spliced when configured.\<close>

definition classic_indices :: "manager \<Rightarrow> example \<Rightarrow> error + int list" where
  "classic_indices m ex =
     (case table_lookup (search_results m) (example_id ex) of
        Inl e \<Rightarrow> Inl e
      | Inr retrieved_indices \<Rightarrow>
          (case gold_position (config m) of
             None \<Rightarrow> Inr retrieved_indices
           | Some g \<Rightarrow>
               (case idx_gold_in_corpus ex of
                  None \<Rightarrow> Inl KeyError
                | Some gold_idx \<Rightarrow> Inr (splice_gold retrieved_indices g gold_idx))))"

definition get_classic_documents :: "manager \<Rightarrow> example \<Rightarrow> error + document list" where
  "get_classic_documents m ex =
     (case classic_indices m ex of
        Inl e \<Rightarrow> Inl e
      | Inr retrieved_indices \<Rightarrow>
          (case classic_loop (corpus m) (get_documents_without_answer (config m))
                  (\<lambda>t. is_answer_in_text_fn m t (answers ex))
                  (py_slice_to retrieved_indices (num_documents_in_context (config m))) [] of
             Inl e \<Rightarrow> Inl e
           | Inr documents \<Rightarrow>
               Inr (py_slice_to documents (num_documents_in_context (config m)))))"

text \<open>The loop of the mixed and multi-corpus families: every index is resolved, none is filtered.\<close>

fun fetch_documents :: "document list option \<Rightarrow> int list \<Rightarrow> error + document list" where
  "fetch_documents c [] = Inr []"
| "fetch_documents c (doc_idx # rest) =
     (case corpus_get c doc_idx of
        Inl e \<Rightarrow> Inl e
      | Inr doc \<Rightarrow>
          (case fetch_documents c rest of Inl e \<Rightarrow> Inl e | Inr ds \<Rightarrow> Inr (doc # ds)))"

definition get_mixed_documents :: "manager \<Rightarrow> example \<Rightarrow> error + document list" where
  "get_mixed_documents m ex =
     (case table_lookup (retriever_results m) (example_id ex) of
        Inl e \<Rightarrow> Inl e
      | Inr retr \<Rightarrow>
          (case table_lookup (random_results m) (example_id ex) of
             Inl e \<Rightarrow> Inl e
           | Inr rand \<Rightarrow>
               (let retrieved_indices = py_slice_to_opt retr (num_retrieved_documents (config m));
                    random_indices = py_slice_to_opt rand (num_random_documents (config m));
                    doc_indices = (if put_retrieved_first (config m)
                                   then retrieved_indices @ random_indices
                                   else random_indices @ retrieved_indices)
                in fetch_documents (corpus m) doc_indices)))"

definition get_multi_corpus_documents :: "manager \<Rightarrow> example \<Rightarrow> error + document list" where
  "get_multi_corpus_documents m ex =
     (case table_lookup (main_results m) (example_id ex) of
        Inl e \<Rightarrow> Inl e
      | Inr mainr \<Rightarrow>
          (case table_lookup (other_results m) (example_id ex) of
             Inl e \<Rightarrow> Inl e
           | Inr other \<Rightarrow>
               (let main_indices = py_slice_to_opt mainr (num_main_documents (config m));
                    other_indices = py_slice_to_opt other (num_other_documents (config m));
                    doc_indices = (if put_main_first (config m)
                                   then main_indices @ other_indices
                                   else other_indices @ main_indices)
                in fetch_documents (corpus m) doc_indices)))"

definition get_documents :: "manager \<Rightarrow> example \<Rightarrow> error + document list" where
  "get_documents m ex =
     (if experiment_type (config m) = ''classic'' then get_classic_documents m ex
      else if experiment_type (config m) = ''mixed'' then get_mixed_documents m ex
      else get_multi_corpus_documents m ex)"

section \<open>The run loop (experiment_manager.py)\<close>

definition NL :: string where
  "NL = [CHR 0x0A]"

definition task_instruction :: string where
  "task_instruction = ''You are given a question and you MUST respond by EXTRACTING a short answer (max 5 tokens) from one of the provided documents. If none of the documents contain the answer, respond with NO-RES.''"

definition only_query_instruction :: string where
  "only_query_instruction = ''You are given a question and you MUST respond with a short answer (max 5 tokens) based on your internal knowledge. If you do not know the answer, please respond with NO-RES.''"

text \<open>
  \<open>_build_prompt\<close>. The argument \<open>documents\<close> is \<open>None\<close>, or the list the caller passes;
  an empty list is falsy and takes the query-only branch, a non-empty one is joined
  with newlines, which needs every item to be a string.
\<close>

definition build_prompt :: "ExperimentConfig \<Rightarrow> string \<Rightarrow> py_item list option \<Rightarrow> error + string" where
  "build_prompt c query documents =
     (case (if documents \<noteq> None \<and> documents \<noteq> Some []
            then (case py_join NL (the documents) of
                    Inl e \<Rightarrow> Inl e
                  | Inr documents_str \<Rightarrow>
                      Inr (task_instruction @ NL @ ''Documents:'' @ NL @ documents_str @ NL
                           @ ''Question: '' @ query @ NL @ ''Answer:''))
            else Inr (only_query_instruction @ NL @ ''Question: '' @ query @ NL @ ''Answer:'')) of
        Inl e \<Rightarrow> Inl e
      | Inr prompt \<Rightarrow>
          if sublist ''mpt'' (llm_id c)
          then Inr (''Below is an instruction that describes a task. Write a response that appropriately completes the request.''
                    @ NL @ ''### Instruction:'' @ NL @ prompt @ NL @ ''### Response:'')
          else Inr prompt)"

text \<open>Lines 120 and 121 of \<open>run_experiments\<close>: where the answer starts, and the answer.\<close>

definition answer_start :: "string \<Rightarrow> int" where
  "answer_start response =
     (if sublist ''Answer:'' response
      then py_find response ''Answer:'' + int (length ''Answer:'')
      else py_find response ''### Response:'' + int (length ''### Response:''))"

definition extract_answer :: "string \<Rightarrow> string" where
  "extract_answer response = py_strip (py_slice_from response (answer_start response))"

record result =
  res_example_id :: string
  res_query :: string
  res_answers :: "string list"
  document_indices :: "int list option"
  gold_document_idx :: "int option"
  prompt :: string
  generated_answer :: string
  ans_match_after_norm :: bool
  ans_in_documents :: "bool option"

text \<open>
  The context of one example: \<open>None\<close> for the query-only family, else what
  \<open>_get_documents\<close> returns.
\<close>

definition example_documents :: "manager \<Rightarrow> example \<Rightarrow> error + document list option" where
  "example_documents m ex =
     (if experiment_type (config m) = ''only_query'' then Inr None
      else (case get_documents m ex of Inl e \<Rightarrow> Inl e | Inr documents \<Rightarrow> Inr (Some documents)))"

text \<open>The body of the loop of \<open>run_experiments\<close>, up to the append.\<close>

definition process_example :: "manager \<Rightarrow> example \<Rightarrow> error + result" where
  "process_example m ex =
     (case example_documents m ex of
        Inl e \<Rightarrow> Inl e
      | Inr documents \<Rightarrow>
          (case build_prompt (config m) (question ex) (map_option (map PyDict) documents) of
             Inl e \<Rightarrow> Inl e
           | Inr p \<Rightarrow>
               (case llm_generate m p of
                  Inl e \<Rightarrow> Inl e
                | Inr response \<Rightarrow>
                    (let ga = extract_answer response
                     in Inr \<lparr> res_example_id = example_id ex,
                              res_query = question ex,
                              res_answers = answers ex,
                              document_indices = map_option (map full_corpus_idx) documents,
                              gold_document_idx =
                                (if documents = None then None else idx_gold_in_corpus ex),
                              prompt = p,
                              generated_answer = ga,
                              ans_match_after_norm =
                                list_ex (\<lambda>ans. sublist (normalize_answer_fn m ans)
                                                        (normalize_answer_fn m ga))
                                  (answers ex),
                              ans_in_documents =
                                (if documents \<noteq> None \<and> documents \<noteq> Some []
                                 then Some (list_ex (\<lambda>doc. is_answer_in_text_fn m (doc_text doc)
                                                            (answers ex))
                                              (the documents))
                                 else None) \<rparr>))))"

subsection \<open>Persisting results\<close>











section \<open>Construction of the manager (\<open>__init__\<close> and \<open>_load_data\<close>)\<close>

text \<open>
  What lies outside the process: the model store and the files, given by what each path
  decodes to. Every access is recorded as an event, in order.
\<close>

record env =
  models :: "string \<rightharpoonup> (string \<Rightarrow> error + string)"
  dataset_files :: "string \<rightharpoonup> example list"
  corpus_files :: "string \<rightharpoonup> document list"
  results_files :: "string \<rightharpoonup> ranking_table"
  imported_normalize_answer :: "string \<Rightarrow> string"
  imported_is_answer_in_text :: "string \<Rightarrow> string list \<Rightarrow> bool"

datatype io_event = LoadModel string | ReadJson string | ReadPickle string

type_synonym 'a io = "io_event list \<times> (error + 'a)"

definition io_bind :: "'a io \<Rightarrow> ('a \<Rightarrow> 'b io) \<Rightarrow> 'b io" where
  "io_bind p f =
     (case p of
        (t, Inl e) \<Rightarrow> (t, Inl e)
      | (t, Inr a) \<Rightarrow> (case f a of (t', r) \<Rightarrow> (t @ t', r)))"

definition open_file :: "io_event \<Rightarrow> string \<Rightarrow> (string \<rightharpoonup> 'a) \<Rightarrow> 'a io" where
  "open_file ev path files =
     ([ev], case files path of None \<Rightarrow> Inl (FileNotFoundError path) | Some x \<Rightarrow> Inr x)"

definition read_results :: "env \<Rightarrow> string \<Rightarrow> ranking_table io" where
  "read_results e path = open_file (ReadPickle path) path (results_files e)"

text \<open>The part of \<open>_load_data\<close> that loads the corpus.\<close>

definition load_corpus :: "ExperimentConfig \<Rightarrow> env \<Rightarrow> document list io" where
  "load_corpus c e =
     (if load_full_corpus c then open_file (ReadJson (corpus_path c)) (corpus_path c) (corpus_files e)
      else (let path = (if use_random c then ''data/processed/corpus_with_random_at60.json''
                        else if use_adore c then ''data/processed/corpus_with_adore_at200.json''
                        else ''data/processed/corpus_with_contriever_at150.json'')
            in open_file (ReadPickle path) path (corpus_files e)))"

text \<open>The part of \<open>_load_data\<close> that loads the search results of the family.\<close>

definition load_search_results :: "env \<Rightarrow> manager \<Rightarrow> manager io" where
  "load_search_results e m =
     (let c = config m in
      if experiment_type c = ''classic'' then
        io_bind (read_results e (if use_random c then random_results_path c
                                 else if use_adore c then adore_results_path c
                                 else contriever_results_path c))
          (\<lambda>t. ([], Inr (m\<lparr>search_results := Some t\<rparr>)))
      else if experiment_type c = ''mixed'' then
        io_bind (read_results e (if use_bm25 c then bm25_results_path c
                                 else contriever_results_path c))
          (\<lambda>t. io_bind (read_results e (random_results_path c))
             (\<lambda>r. ([], Inr (m\<lparr>retriever_results := Some t, random_results := Some r\<rparr>))))
      else if experiment_type c = ''multi_corpus'' then
        io_bind (read_results e (if use_bm25 c then bm25_results_path c
                                 else contriever_results_path c))
          (\<lambda>t. io_bind (read_results e (if use_corpus_nonsense c then nonsense_results_path c
                                          else reddit_results_path c))
             (\<lambda>r. ([], Inr (m\<lparr>main_results := Some t, other_results := Some r\<rparr>))))
      else ([], Inr m))"

definition load_data :: "env \<Rightarrow> manager \<Rightarrow> manager io" where
  "load_data e m =
     (let c = config m;
          data_path = (if use_test c then test_data_path c else train_data_path c)
      in io_bind (open_file (ReadJson data_path) data_path (dataset_files e))
           (\<lambda>ds. if experiment_type c \<noteq> ''only_query''
                  then io_bind (load_corpus c e)
                         (\<lambda>docs. load_search_results e (m\<lparr>dataset := ds, corpus := Some docs\<rparr>))
                  else ([], Inr (m\<lparr>dataset := ds\<rparr>))))"

text \<open>\<open>ExperimentManager.__init__\<close>: validate, construct the generator, load the data.\<close>

definition init :: "ExperimentConfig \<Rightarrow> env \<Rightarrow> manager io" where
  "init c e =
     (case validate c of
        Inl err \<Rightarrow> ([], Inl err)
      | Inr _ \<Rightarrow>
          io_bind (open_file (LoadModel (llm_id c)) (llm_id c) (models e))
            (\<lambda>g. load_data e
                    \<lparr> config = c, llm_generate = g,
                      normalize_answer_fn = imported_normalize_answer e,
                      is_answer_in_text_fn = imported_is_answer_in_text e,
                      dataset = [], corpus = None, search_results = None,
                      retriever_results = None, random_results = None,
                      main_results = None, other_results = None \<rparr>))"

section \<open>The answer normaliser\<close>

text \<open>
  Modelled from the spec: the module \<open>normalize_answers\<close> (functions
  \<open>normalize_answer\<close> and \<open>is_answer_in_text\<close>) is imported by the manager and is
  not among the sources. The spec gives normalisation as case-folding, stripping
  punctuation, stripping the articles and collapsing whitespace, and the containment test
  as the normalised-substring test between any gold answer and the text.
\<close>

definition py_lower :: "char \<Rightarrow> char" where
  "py_lower c = (let n = (of_char c :: nat) in if 65 \<le> n \<and> n \<le> 90 then char_of (n + 32) else c)"

definition is_punct :: "char \<Rightarrow> bool" where
  "is_punct c = (let n = (of_char c :: nat)
                 in (33 \<le> n \<and> n \<le> 47) \<or> (58 \<le> n \<and> n \<le> 64)
                    \<or> (91 \<le> n \<and> n \<le> 96) \<or> (123 \<le> n \<and> n \<le> 126))"

fun split_words :: "string \<Rightarrow> string \<Rightarrow> string list" where
  "split_words w [] = (if w = [] then [] else [w])"
| "split_words w (c # cs) =
     (if is_space c then (if w = [] then split_words [] cs else w # split_words [] cs)
      else split_words (w @ [c]) cs)"

definition normalize_answer :: "string \<Rightarrow> string" where
  "normalize_answer s =
     join_strs '' ''
       (filter (\<lambda>w. w \<notin> set [''a'', ''an'', ''the''])
          (split_words [] (filter (\<lambda>c. \<not> is_punct c) (map py_lower s))))"

definition is_answer_in_text :: "string \<Rightarrow> string list \<Rightarrow> bool" where
  "is_answer_in_text txt answers_list =
     list_ex (\<lambda>a. sublist (normalize_answer a) (normalize_answer txt)) answers_list"

section \<open>The extraction the specification describes\<close>

text \<open>
  The specification's wording of the answer extraction, for comparison with
  \<open>extract_answer\<close>: the text after the last occurrence of the marker, and the empty
  string when the marker does not occur.
\<close>

fun after_last :: "string \<Rightarrow> string \<Rightarrow> string option" where
  "after_last marker [] = (if marker = [] then Some [] else None)"
| "after_last marker (c # cs) =
     (case after_last marker cs of
        Some t \<Rightarrow> Some t
      | None \<Rightarrow> if prefix marker (c # cs) then Some (drop (length marker) (c # cs)) else None)"

definition answer_after_last_marker :: "string \<Rightarrow> string \<Rightarrow> string" where
  "answer_after_last_marker marker response =
     (case after_last marker response of None \<Rightarrow> [] | Some t \<Rightarrow> t)"

section \<open>The assembler over an explicit store\<close>

text \<open>
  Python lists are objects: the ranked list of a table entry is shared by every run, and
  \<open>retrieved_indices = self.search_results[idx][0]\<close> binds a local name to that same
  object. This section models the assembler again, statement by statement, over a store
  of list objects, so that what a run allocates and what it mutates is explicit. Index
  lists and document lists live at addresses; \<open>fresh\<close> is the next unused address. A
  slice and a concatenation allocate a new list, \<open>append\<close> changes a list in place.
\<close>

record pystate =
  idx_objs :: "nat \<rightharpoonup> int list"
  doc_objs :: "nat \<rightharpoonup> document list"
  fresh :: nat

type_synonym 'a st = "pystate \<Rightarrow> (error + 'a) \<times> pystate"

definition st_return :: "'a \<Rightarrow> 'a st" where
  "st_return x s = (Inr x, s)"

definition st_raise :: "error \<Rightarrow> 'a st" where
  "st_raise e s = (Inl e, s)"

definition st_bind :: "'a st \<Rightarrow> ('a \<Rightarrow> 'b st) \<Rightarrow> 'b st" where
  "st_bind f g s = (case f s of (Inl e, s') \<Rightarrow> (Inl e, s') | (Inr x, s') \<Rightarrow> g x s')"

definition alloc_idx :: "int list \<Rightarrow> nat st" where
  "alloc_idx xs s =
     (Inr (fresh s), s\<lparr> idx_objs := (idx_objs s)(fresh s \<mapsto> xs), fresh := Suc (fresh s) \<rparr>)"

definition alloc_docs :: "document list \<Rightarrow> nat st" where
  "alloc_docs ds s =
     (Inr (fresh s), s\<lparr> doc_objs := (doc_objs s)(fresh s \<mapsto> ds), fresh := Suc (fresh s) \<rparr>)"

text \<open>Reading through a reference; a reference to no object cannot arise in Python.\<close>

definition read_idx :: "nat \<Rightarrow> int list st" where
  "read_idx a s = (case idx_objs s a of None \<Rightarrow> (Inl AttributeError, s) | Some xs \<Rightarrow> (Inr xs, s))"

definition read_docs :: "nat \<Rightarrow> document list st" where
  "read_docs a s = (case doc_objs s a of None \<Rightarrow> (Inl AttributeError, s) | Some ds \<Rightarrow> (Inr ds, s))"

text \<open>\<open>documents.append(doc)\<close>: the list at the address changes in place.\<close>

definition append_doc :: "nat \<Rightarrow> document \<Rightarrow> unit st" where
  "append_doc a d s =
     (case doc_objs s a of
        None \<Rightarrow> (Inl AttributeError, s)
      | Some ds \<Rightarrow> (Inr (), s\<lparr> doc_objs := (doc_objs s)(a \<mapsto> ds @ [d]) \<rparr>))"

text \<open>\<open>xs[:k]\<close>, \<open>xs[k:]\<close> and \<open>xs + ys\<close> on index lists, and \<open>ds[:k]\<close> on document lists.\<close>

definition st_slice_to :: "nat \<Rightarrow> int option \<Rightarrow> nat st" where
  "st_slice_to a k = st_bind (read_idx a) (\<lambda>xs. alloc_idx (py_slice_to_opt xs k))"

definition st_slice_from :: "nat \<Rightarrow> int \<Rightarrow> nat st" where
  "st_slice_from a k = st_bind (read_idx a) (\<lambda>xs. alloc_idx (py_slice_from xs k))"

definition st_concat :: "nat \<Rightarrow> nat \<Rightarrow> nat st" where
  "st_concat a b = st_bind (read_idx a) (\<lambda>xs. st_bind (read_idx b) (\<lambda>ys. alloc_idx (xs @ ys)))"

definition st_slice_docs_to :: "nat \<Rightarrow> int \<Rightarrow> nat st" where
  "st_slice_docs_to a k = st_bind (read_docs a) (\<lambda>ds. alloc_docs (py_slice_to ds k))"

text \<open>
  The manager's attributes as references: each table maps an example identifier to the
  address of its ranked list, and the corpus is the address of a document list.
\<close>

record store_manager =
  sm_config :: ExperimentConfig
  sm_is_answer_in_text :: "string \<Rightarrow> string list \<Rightarrow> bool"
  sm_corpus :: "nat option"
  sm_search_results :: "(string \<rightharpoonup> nat) option"
  sm_retriever_results :: "(string \<rightharpoonup> nat) option"
  sm_random_results :: "(string \<rightharpoonup> nat) option"
  sm_main_results :: "(string \<rightharpoonup> nat) option"
  sm_other_results :: "(string \<rightharpoonup> nat) option"

definition st_table_lookup :: "(string \<rightharpoonup> nat) option \<Rightarrow> string \<Rightarrow> nat st" where
  "st_table_lookup t idx =
     (case t of None \<Rightarrow> st_raise AttributeError
      | Some tbl \<Rightarrow> (case tbl idx of None \<Rightarrow> st_raise KeyError | Some a \<Rightarrow> st_return a))"

definition st_corpus_get :: "nat option \<Rightarrow> int \<Rightarrow> document st" where
  "st_corpus_get c i =
     (case c of None \<Rightarrow> st_raise AttributeError
      | Some a \<Rightarrow> st_bind (read_docs a)
                    (\<lambda>docs. case py_index docs i of Inl e \<Rightarrow> st_raise e | Inr d \<Rightarrow> st_return d))"

text \<open>\<open>retrieved_indices[:g] + [gold_idx] + retrieved_indices[g:]\<close>, evaluated left to right.\<close>

definition st_splice_gold :: "nat \<Rightarrow> int \<Rightarrow> int \<Rightarrow> nat st" where
  "st_splice_gold a g gold =
     st_bind (st_slice_to a (Some g)) (\<lambda>t1.
     st_bind (alloc_idx [gold]) (\<lambda>t2.
     st_bind (st_concat t1 t2) (\<lambda>t3.
     st_bind (st_slice_from a g) (\<lambda>t4.
     st_concat t3 t4))))"

text \<open>The two loops, appending to the list at address \<open>d\<close>.\<close>

fun st_classic_loop :: "store_manager \<Rightarrow> example \<Rightarrow> nat \<Rightarrow> int list \<Rightarrow> unit st" where
  "st_classic_loop m ex d [] = st_return ()"
| "st_classic_loop m ex d (doc_idx # rest) =
     st_bind (st_corpus_get (sm_corpus m) doc_idx) (\<lambda>doc.
       if \<not> get_documents_without_answer (sm_config m)
          \<or> \<not> sm_is_answer_in_text m (doc_text doc) (answers ex)
       then st_bind (append_doc d doc) (\<lambda>_. st_classic_loop m ex d rest)
       else st_classic_loop m ex d rest)"

fun st_fetch_loop :: "store_manager \<Rightarrow> nat \<Rightarrow> int list \<Rightarrow> unit st" where
  "st_fetch_loop m d [] = st_return ()"
| "st_fetch_loop m d (doc_idx # rest) =
     st_bind (st_corpus_get (sm_corpus m) doc_idx) (\<lambda>doc.
       st_bind (append_doc d doc) (\<lambda>_. st_fetch_loop m d rest))"

definition st_get_classic_documents :: "store_manager \<Rightarrow> example \<Rightarrow> nat st" where
  "st_get_classic_documents m ex =
     st_bind (st_table_lookup (sm_search_results m) (example_id ex)) (\<lambda>retrieved_indices.
     st_bind (alloc_docs []) (\<lambda>documents.
     st_bind (case gold_position (sm_config m) of
                None \<Rightarrow> st_return retrieved_indices
              | Some g \<Rightarrow>
                  (case idx_gold_in_corpus ex of
                     None \<Rightarrow> st_raise KeyError
                   | Some gold_idx \<Rightarrow> st_splice_gold retrieved_indices g gold_idx))
       (\<lambda>retrieved_indices.
     st_bind (st_slice_to retrieved_indices (Some (num_documents_in_context (sm_config m))))
       (\<lambda>sliced.
     st_bind (read_idx sliced) (\<lambda>idxs.
     st_bind (st_classic_loop m ex documents idxs) (\<lambda>_.
     st_slice_docs_to documents (num_documents_in_context (sm_config m))))))))"

text \<open>The mixed and multi-corpus families differ only in the tables, counts and flag.\<close>

definition st_two_table_documents ::
  "store_manager \<Rightarrow> (string \<rightharpoonup> nat) option \<Rightarrow> int option \<Rightarrow> (string \<rightharpoonup> nat) option
     \<Rightarrow> int option \<Rightarrow> bool \<Rightarrow> example \<Rightarrow> nat st" where
  "st_two_table_documents m t1 n1 t2 n2 first_first ex =
     st_bind (st_table_lookup t1 (example_id ex)) (\<lambda>a1.
     st_bind (st_slice_to a1 n1) (\<lambda>first_indices.
     st_bind (st_table_lookup t2 (example_id ex)) (\<lambda>a2.
     st_bind (st_slice_to a2 n2) (\<lambda>second_indices.
     st_bind (alloc_docs []) (\<lambda>documents.
     st_bind (if first_first then st_concat first_indices second_indices
              else st_concat second_indices first_indices) (\<lambda>doc_indices.
     st_bind (read_idx doc_indices) (\<lambda>idxs.
     st_bind (st_fetch_loop m documents idxs) (\<lambda>_.
     st_return documents))))))))"

definition st_get_mixed_documents :: "store_manager \<Rightarrow> example \<Rightarrow> nat st" where
  "st_get_mixed_documents m ex =
     st_two_table_documents m
       (sm_retriever_results m) (num_retrieved_documents (sm_config m))
       (sm_random_results m) (num_random_documents (sm_config m))
       (put_retrieved_first (sm_config m)) ex"

definition st_get_multi_corpus_documents :: "store_manager \<Rightarrow> example \<Rightarrow> nat st" where
  "st_get_multi_corpus_documents m ex =
     st_two_table_documents m
       (sm_main_results m) (num_main_documents (sm_config m))
       (sm_other_results m) (num_other_documents (sm_config m))
       (put_main_first (sm_config m)) ex"

definition st_get_documents :: "store_manager \<Rightarrow> example \<Rightarrow> nat st" where
  "st_get_documents m ex =
     (if experiment_type (sm_config m) = ''classic'' then st_get_classic_documents m ex
      else if experiment_type (sm_config m) = ''mixed'' then st_get_mixed_documents m ex
      else st_get_multi_corpus_documents m ex)"

text \<open>What a run returns to its caller: the error, or the list at the returned address.\<close>

definition outcome :: "(error + nat) \<times> pystate \<Rightarrow> error + document list" where
  "outcome r =
     (case r of
        (Inl e, s) \<Rightarrow> Inl e
      | (Inr a, s) \<Rightarrow> (case doc_objs s a of None \<Rightarrow> Inl AttributeError | Some ds \<Rightarrow> Inr ds))"

text \<open>
  A store is well formed for a manager when every reference the manager holds is to an
  object allocated in it.
\<close>

definition table_ok :: "pystate \<Rightarrow> (string \<rightharpoonup> nat) option \<Rightarrow> bool" where
  "table_ok s t =
     (case t of None \<Rightarrow> True
      | Some tbl \<Rightarrow> (\<forall>a \<in> ran tbl. a < fresh s \<and> idx_objs s a \<noteq> None))"

definition wf_store :: "pystate \<Rightarrow> store_manager \<Rightarrow> bool" where
  "wf_store s m =
     ((case sm_corpus m of None \<Rightarrow> True | Some a \<Rightarrow> a < fresh s \<and> doc_objs s a \<noteq> None)
      \<and> table_ok s (sm_search_results m) \<and> table_ok s (sm_retriever_results m)
      \<and> table_ok s (sm_random_results m) \<and> table_ok s (sm_main_results m)
      \<and> table_ok s (sm_other_results m))"

text \<open>The manager of the earlier sections that a store and its references stand for.\<close>

definition table_of :: "pystate \<Rightarrow> (string \<rightharpoonup> nat) option \<Rightarrow> ranking_table option" where
  "table_of s t =
     map_option (\<lambda>tbl idx. case tbl idx of None \<Rightarrow> None | Some a \<Rightarrow> idx_objs s a) t"

definition manager_of :: "pystate \<Rightarrow> store_manager \<Rightarrow> manager" where
  "manager_of s m =
     \<lparr> config = sm_config m,
       llm_generate = (\<lambda>p. Inl GenerationError),
       normalize_answer_fn = (\<lambda>t. t),
       is_answer_in_text_fn = sm_is_answer_in_text m,
       dataset = [],
       corpus = (case sm_corpus m of None \<Rightarrow> None | Some a \<Rightarrow> doc_objs s a),
       search_results = table_of s (sm_search_results m),
       retriever_results = table_of s (sm_retriever_results m),
       random_results = table_of s (sm_random_results m),
       main_results = table_of s (sm_main_results m),
       other_results = table_of s (sm_other_results m) \<rparr>"

text \<open>Every object below address \<open>n\<close> is the same in both stores, and nothing was freed.\<close>

definition unchanged_below :: "nat \<Rightarrow> pystate \<Rightarrow> pystate \<Rightarrow> bool" where
  "unchanged_below n s s' =
     (fresh s \<le> fresh s'
      \<and> (\<forall>a<n. idx_objs s' a = idx_objs s a \<and> doc_objs s' a = doc_objs s a))"

section \<open>Concrete scenarios\<close>

text \<open>A three-document corpus; only the first document holds the gold answer.\<close>

definition D0 :: document where
  "D0 = \<lparr> doc_text = ''Lando Calrissian was played by Billy Dee Williams.'',
           title = ''Lando'', full_corpus_idx = 0 \<rparr>"

definition D1 :: document where
  "D1 = \<lparr> doc_text = ''Paris is the capital of France.'', title = ''Paris'', full_corpus_idx = 1 \<rparr>"

definition D2 :: document where
  "D2 = \<lparr> doc_text = ''The sky is blue.'', title = ''Sky'', full_corpus_idx = 2 \<rparr>"

definition example_x :: example where
  "example_x = \<lparr> example_id = ''X'', question = ''Who owns Cloud City?'',
                  answers = [''Lando Calrissian''], idx_gold_in_corpus = Some 0 \<rparr>"

definition example_y :: example where
  "example_y = \<lparr> example_id = ''Y'', question = ''Who owns Cloud City?'',
                  answers = [''Darth Vader''], idx_gold_in_corpus = None \<rparr>"

text \<open>A generator that echoes the prompt and continues it with a fixed sentence.\<close>

definition echo_llm :: "string \<Rightarrow> error + string" where
  "echo_llm p = Inr (p @ '' The answer is Lando Calrissian.'')"

text \<open>An environment with no model and no file.\<close>

definition empty_env :: env where
  "empty_env = \<lparr> models = Map.empty, dataset_files = Map.empty, corpus_files = Map.empty,
                  results_files = Map.empty,
                  imported_normalize_answer = normalize_answer,
                  imported_is_answer_in_text = is_answer_in_text \<rparr>"

definition mixed_unset_config :: ExperimentConfig where
  "mixed_unset_config =
     default_config\<lparr> experiment_type := ''mixed'', num_retrieved_documents := Some 3 \<rparr>"

text \<open>
  A classic manager: ranking \<open>[0, 1, 2]\<close> for the example, two documents asked for, the
  answer-exclusion filter on (the default).
\<close>

definition classic_manager :: manager where
  "classic_manager =
     \<lparr> config = default_config\<lparr> num_documents_in_context := 2 \<rparr>,
       llm_generate = echo_llm,
       normalize_answer_fn = normalize_answer,
       is_answer_in_text_fn = is_answer_in_text,
       dataset = [example_x],
       corpus = Some [D0, D1, D2],
       search_results = Some [''X'' \<mapsto> [0, 1, 2]],
       retriever_results = None, random_results = None,
       main_results = None, other_results = None \<rparr>"

text \<open>The same manager asking for one document: the only candidate holds the answer.\<close>

definition classic_manager_one :: manager where
  "classic_manager_one =
     classic_manager\<lparr> config := default_config\<lparr> num_documents_in_context := 1 \<rparr> \<rparr>"

text \<open>
  A mixed manager: two retrieved documents and one random document, the random one first,
  with \<open>num_documents_in_context = 1\<close>.
\<close>

definition mixed_manager :: manager where
  "mixed_manager =
     \<lparr> config = default_config\<lparr> experiment_type := ''mixed'',
                                  num_documents_in_context := 1,
                                  num_retrieved_documents := Some 2,
                                  num_random_documents := Some 1 \<rparr>,
       llm_generate = echo_llm,
       normalize_answer_fn = normalize_answer,
       is_answer_in_text_fn = is_answer_in_text,
       dataset = [example_x],
       corpus = Some [D0, D1, D2],
       search_results = None,
       retriever_results = Some [''X'' \<mapsto> [2, 0, 1]],
       random_results = Some [''X'' \<mapsto> [1, 2]],
       main_results = None, other_results = None \<rparr>"

text \<open>A query-only manager over five examples, saving every two.\<close>

definition only_query_manager :: manager where
  "only_query_manager =
     \<lparr> config = default_config\<lparr> experiment_type := ''only_query'', save_every := 2 \<rparr>,
       llm_generate = echo_llm,
       normalize_answer_fn = normalize_answer,
       is_answer_in_text_fn = is_answer_in_text,
       dataset = [example_x, example_y, example_x, example_y, example_x],
       corpus = None,
       search_results = None,
       retriever_results = None, random_results = None,
       main_results = None, other_results = None \<rparr>"

text \<open>
  A second example, ranked \<open>[1, 2]\<close>, whose gold document is document 0, for two classic
  managers that splice the gold index: at position 1, and at position 5 (beyond the end
  of the ranking). Both ask for three documents and have the filter off.
\<close>

definition example_z :: example where
  "example_z = \<lparr> example_id = ''Z'', question = ''Who owns Cloud City?'',
                  answers = [''Lando Calrissian''], idx_gold_in_corpus = Some 0 \<rparr>"

definition gold_manager :: manager where
  "gold_manager =
     \<lparr> config = default_config\<lparr> gold_position := Some 1,
                                  num_documents_in_context := 3,
                                  get_documents_without_answer := False \<rparr>,
       llm_generate = echo_llm,
       normalize_answer_fn = normalize_answer,
       is_answer_in_text_fn = is_answer_in_text,
       dataset = [example_z],
       corpus = Some [D0, D1, D2],
       search_results = Some [''Z'' \<mapsto> [1, 2]],
       retriever_results = None, random_results = None,
       main_results = None, other_results = None \<rparr>"

definition gold_far_manager :: manager where
  "gold_far_manager =
     gold_manager\<lparr> config := default_config\<lparr> gold_position := Some 5,
                                               num_documents_in_context := 3,
                                               get_documents_without_answer := False \<rparr> \<rparr>"

text \<open>
  A multi-corpus manager: two main documents and one other document, the main ones first,
  with \<open>num_documents_in_context = 1\<close>.
\<close>

definition multi_corpus_manager :: manager where
  "multi_corpus_manager =
     \<lparr> config = default_config\<lparr> experiment_type := ''multi_corpus'',
                                  num_documents_in_context := 1,
                                  num_main_documents := Some 2,
                                  num_other_documents := Some 1,
                                  put_main_first := True \<rparr>,
       llm_generate = echo_llm,
       normalize_answer_fn = normalize_answer,
       is_answer_in_text_fn = is_answer_in_text,
       dataset = [example_x],
       corpus = Some [D0, D1, D2],
       search_results = None,
       retriever_results = None, random_results = None,
       main_results = Some [''X'' \<mapsto> [0, 1]],
       other_results = Some [''X'' \<mapsto> [2, 1]] \<rparr>"

text \<open>
  A store holding the ranked list \<open>[1, 2]\<close> at address 0 and the corpus at address 1, and
  the classic manager over it that splices the gold index at position 1.
\<close>

definition gold_store :: pystate where
  "gold_store = \<lparr> idx_objs = [0 \<mapsto> [1, 2]], doc_objs = [1 \<mapsto> [D0, D1, D2]], fresh = 2 \<rparr>"

definition gold_store_manager :: store_manager where
  "gold_store_manager =
     \<lparr> sm_config = default_config\<lparr> gold_position := Some 1,
                                     num_documents_in_context := 3,
                                     get_documents_without_answer := False \<rparr>,
       sm_is_answer_in_text = is_answer_in_text,
       sm_corpus = Some 1,
       sm_search_results = Some [''Z'' \<mapsto> 0],
       sm_retriever_results = None, sm_random_results = None,
       sm_main_results = None, sm_other_results = None \<rparr>"

section \<open>Slices and the corpus loops\<close>

lemma py_slice_to_nonneg: "0 \<le> k \<Longrightarrow> py_slice_to xs k = take (nat k) xs"
  by (simp add: py_slice_to_def)

lemma py_slice_from_nonneg: "0 \<le> k \<Longrightarrow> py_slice_from xs k = drop (nat k) xs"
  by (simp add: py_slice_from_def)

lemma py_slice_split: "py_slice_to xs k @ py_slice_from xs k = xs"
  by (simp add: py_slice_to_def py_slice_from_def)

lemma length_splice_gold: "length (splice_gold xs g gold) = Suc (length xs)"
proof -
  have "length (py_slice_to xs g) + length (py_slice_from xs g) = length xs"
    by (metis length_append py_slice_split)
  then show ?thesis by (simp add: splice_gold_def)
qed

lemma fetch_documents_sound:
  "fetch_documents c idxs = Inr ds \<Longrightarrow> list_all2 (\<lambda>i d. corpus_get c i = Inr d) idxs ds"
  by (induction idxs arbitrary: ds) (auto split: sum.splits)

lemma fetch_documents_complete:
  "list_all2 (\<lambda>i d. corpus_get c i = Inr d) idxs ds \<Longrightarrow> fetch_documents c idxs = Inr ds"
  by (induction rule: list_all2_induct) auto

lemma fetch_documents_length: "fetch_documents c idxs = Inr ds \<Longrightarrow> length ds = length idxs"
  using fetch_documents_sound list_all2_lengthD by fastforce

lemma classic_loop_fetch:
  "classic_loop c flt h idxs acc =
     (case fetch_documents c idxs of
        Inl e \<Rightarrow> Inl e
      | Inr cands \<Rightarrow> Inr (acc @ filter (\<lambda>d. \<not> flt \<or> \<not> h (doc_text d)) cands))"
  by (induction idxs arbitrary: acc) (auto split: sum.splits)

lemma take_filter_short: "length xs \<le> n \<Longrightarrow> take n (filter P xs) = filter P xs"
  by (meson le_trans length_filter_le take_all)

lemma length_filter_full: "length (filter P xs) = length xs \<longleftrightarrow> (\<forall>x\<in>set xs. P x)"
  by (metis filter_id_conv length_filter_less less_irrefl_nat)

lemma classic_manager_indices: "classic_indices classic_manager example_x = Inr [0, 1, 2]"
  by code_simp

lemma classic_manager_documents: "get_classic_documents classic_manager example_x = Inr [D1]"
  by code_simp

lemma mixed_manager_documents: "get_mixed_documents mixed_manager example_x = Inr [D1, D2, D0]"
  by code_simp

section \<open>Validation\<close>

text \<open>
  C5. \<open>validate\<close> raises exactly when the family tag is not one of the four, or the family
  is mixed with a retrieved or random count unset, or the family is multi-corpus with a
  main or other count unset; what it raises is a \<open>ValueError\<close>, the error kind of an
  invalid configuration; and the constructor of the manager then fails with that error
  before the model is loaded and before any file is read.
\<close>

theorem validate_raises_iff_before_io:
  "((\<exists>err. validate c = Inl err) \<longleftrightarrow>
      (experiment_type c \<notin> {''classic'', ''mixed'', ''multi_corpus'', ''only_query''}
       \<or> (experiment_type c = ''mixed''
           \<and> (num_retrieved_documents c = None \<or> num_random_documents c = None))
       \<or> (experiment_type c = ''multi_corpus''
           \<and> (num_main_documents c = None \<or> num_other_documents c = None))))
   \<and> (validate c = Inl err \<longrightarrow> (\<exists>msg. err = ValueError msg) \<and> init c e = ([], Inl err))"
  by (auto simp: validate_def init_def split: if_splits)

theorem validate_raises_iff_before_io_witness:
  "validate mixed_unset_config
     = Inl (ValueError ''Mixed experiments require retrieved and random document counts'')
   \<and> init mixed_unset_config empty_env
     = ([], Inl (ValueError ''Mixed experiments require retrieved and random document counts''))"
  using validate_raises_iff_before_io
          [of mixed_unset_config
              "ValueError ''Mixed experiments require retrieved and random document counts''"
              empty_env]
  by (simp add: validate_def mixed_unset_config_def default_config_def)

section \<open>The gold splice\<close>

lemma inserted_at:
  assumes p: "p \<le> length xs" and ys: "ys = take p xs @ gold # drop p xs"
  shows "length ys = length xs + 1 \<and> ys ! p = gold \<and> (\<forall>i<p. ys ! i = xs ! i)
         \<and> (\<forall>i. p \<le> i \<and> i < length xs \<longrightarrow> ys ! Suc i = xs ! i)"
proof (intro conjI allI impI)
  from p have len: "length (take p xs) = p" by simp
  show "length ys = length xs + 1" using p ys by simp
  show "ys ! p = gold" unfolding ys using len by (metis nth_append_length)
  show "ys ! i = xs ! i" if "i < p" for i
    unfolding ys using len that by (simp add: nth_append)
  show "ys ! Suc i = xs ! i" if i: "p \<le> i \<and> i < length xs" for i
  proof -
    have "ys ! Suc i = (gold # drop p xs) ! (Suc i - p)"
      unfolding ys using len i by (simp add: nth_append)
    also have "\<dots> = drop p xs ! (i - p)" using i by (simp add: Suc_diff_le)
    also have "\<dots> = xs ! i" using i by simp
    finally show ?thesis .
  qed
qed

lemma splice_gold_position:
  "splice_gold xs g gold
     = take (if g < 0 then nat (int (length xs) + g)
             else if g \<le> int (length xs) then nat g else length xs) xs
       @ gold # drop (if g < 0 then nat (int (length xs) + g)
                      else if g \<le> int (length xs) then nat g else length xs) xs"
  by (simp add: splice_gold_def py_slice_to_def py_slice_from_def)

lemma classic_documents_unfiltered:
  assumes n0: "0 \<le> num_documents_in_context (config m)"
    and off: "\<not> get_documents_without_answer (config m)"
    and idxs: "classic_indices m ex = Inr idxs"
  shows "get_classic_documents m ex
           = fetch_documents (corpus m) (take (nat (num_documents_in_context (config m))) idxs)"
proof (cases "fetch_documents (corpus m) (take (nat (num_documents_in_context (config m))) idxs)")
  case (Inl e)
  then show ?thesis
    using n0 idxs by (simp add: get_classic_documents_def classic_loop_fetch py_slice_to_nonneg)
next
  case (Inr cands)
  from fetch_documents_length [OF Inr] have "length cands \<le> nat (num_documents_in_context (config m))"
    by simp
  then show ?thesis
    using Inr n0 off idxs
    by (simp add: get_classic_documents_def classic_loop_fetch py_slice_to_nonneg)
qed

text \<open>
  C8, as amended. Splicing the gold index at \<open>gold_position\<close> inserts it into the
  ranked list at the position \<open>p\<close> that Python's slices give: \<open>p = gold_position\<close> when
  \<open>0 \<le> gold_position \<le> length\<close>, \<open>p = length\<close> (after the last entry) when
  \<open>gold_position\<close> is beyond the end, and \<open>p = max 0 (length + gold_position)\<close> when it
  is negative. In every case the result is the entries before \<open>p\<close>, the gold index, then
  the entries from \<open>p\<close> on: the list grows by one, the entries before \<open>p\<close> keep their
  places, each later entry moves one place to the right, and none is replaced. The
  spliced list is the list the classic assembler walks: with the filter off it returns the
  corpus documents at the first \<open>num_documents_in_context\<close> entries of it.
\<close>

theorem splice_gold_inserts:
  "(let p = (if g < 0 then nat (int (length xs) + g)
             else if g \<le> int (length xs) then nat g else length xs)
    in p \<le> length xs
       \<and> splice_gold xs g gold = take p xs @ gold # drop p xs
       \<and> length (splice_gold xs g gold) = length xs + 1
       \<and> splice_gold xs g gold ! p = gold
       \<and> (\<forall>i<p. splice_gold xs g gold ! i = xs ! i)
       \<and> (\<forall>i. p \<le> i \<and> i < length xs \<longrightarrow> splice_gold xs g gold ! Suc i = xs ! i))
   \<and> (gold_position (config m) = Some g \<and> idx_gold_in_corpus ex = Some gold
        \<and> table_lookup (search_results m) (example_id ex) = Inr xs
       \<longrightarrow> classic_indices m ex = Inr (splice_gold xs g gold)
           \<and> (0 \<le> num_documents_in_context (config m)
                \<and> \<not> get_documents_without_answer (config m)
              \<longrightarrow> get_classic_documents m ex
                    = fetch_documents (corpus m)
                        (take (nat (num_documents_in_context (config m)))
                           (splice_gold xs g gold))))"
proof (intro conjI impI)
  define p where "p = (if g < 0 then nat (int (length xs) + g)
                       else if g \<le> int (length xs) then nat g else length xs)"
  have p: "p \<le> length xs" unfolding p_def by auto
  have eq: "splice_gold xs g gold = take p xs @ gold # drop p xs"
    unfolding p_def by (rule splice_gold_position)
  from inserted_at [OF p eq] p eq
  show "let p = (if g < 0 then nat (int (length xs) + g)
             else if g \<le> int (length xs) then nat g else length xs)
    in p \<le> length xs
       \<and> splice_gold xs g gold = take p xs @ gold # drop p xs
       \<and> length (splice_gold xs g gold) = length xs + 1
       \<and> splice_gold xs g gold ! p = gold
       \<and> (\<forall>i<p. splice_gold xs g gold ! i = xs ! i)
       \<and> (\<forall>i. p \<le> i \<and> i < length xs \<longrightarrow> splice_gold xs g gold ! Suc i = xs ! i)"
    unfolding Let_def p_def [symmetric] by blast
next
  assume h: "gold_position (config m) = Some g \<and> idx_gold_in_corpus ex = Some gold
        \<and> table_lookup (search_results m) (example_id ex) = Inr xs"
  then show ci: "classic_indices m ex = Inr (splice_gold xs g gold)"
    by (simp add: classic_indices_def)
  assume "0 \<le> num_documents_in_context (config m) \<and> \<not> get_documents_without_answer (config m)"
  then show "get_classic_documents m ex
                    = fetch_documents (corpus m)
                        (take (nat (num_documents_in_context (config m)))
                           (splice_gold xs g gold))"
    using classic_documents_unfiltered [OF _ _ ci] by blast
qed

lemma gold_manager_documents:
  "fetch_documents (corpus gold_manager) (take (nat 3) [1, 0, 2]) = Inr [D1, D0, D2]"
  by code_simp

theorem splice_gold_inserts_witness:
  "gold_position (config gold_manager) = Some 1 \<and> idx_gold_in_corpus example_z = Some 0
   \<and> table_lookup (search_results gold_manager) (example_id example_z) = Inr [1, 2]
   \<and> splice_gold [1, 2] 1 0 = [1, 0, 2]
   \<and> classic_indices gold_manager example_z = Inr [1, 0, 2]
   \<and> get_classic_documents gold_manager example_z = Inr [D1, D0, D2]
   \<and> splice_gold [5, 6] (- 1) 9 = [5, 9, 6]
   \<and> splice_gold [5, 6] 5 9 = [5, 6, 9]"
proof -
  have h: "gold_position (config gold_manager) = Some 1 \<and> idx_gold_in_corpus example_z = Some 0
           \<and> table_lookup (search_results gold_manager) (example_id example_z) = Inr [1, 2]"
    by (simp add: gold_manager_def example_z_def table_lookup_def)
  have c: "0 \<le> num_documents_in_context (config gold_manager)
           \<and> \<not> get_documents_without_answer (config gold_manager)"
    "num_documents_in_context (config gold_manager) = 3"
    by (simp_all add: gold_manager_def)
  have s1: "splice_gold [1, 2] 1 0 = [1, 0, 2]"
    using splice_gold_inserts [of 1 "[1, 2]" 0 gold_manager example_z] by (simp add: Let_def)
  have s2: "splice_gold [5, 6] (- 1) 9 = [5, 9, 6]"
    using splice_gold_inserts [of "- 1" "[5, 6]" 9 gold_manager example_z] by (simp add: Let_def)
  have s3: "splice_gold [5, 6] 5 9 = [5, 6, 9]"
    using splice_gold_inserts [of 5 "[5, 6]" 9 gold_manager example_z] by (simp add: Let_def)
  from splice_gold_inserts [of 1 "[1, 2]" 0 gold_manager example_z] h c(1)
  have "classic_indices gold_manager example_z = Inr (splice_gold [1, 2] 1 0)"
    and "get_classic_documents gold_manager example_z
           = fetch_documents (corpus gold_manager)
               (take (nat (num_documents_in_context (config gold_manager)))
                  (splice_gold [1, 2] 1 0))"
    by blast+
  then have "classic_indices gold_manager example_z = Inr [1, 0, 2]"
    and "get_classic_documents gold_manager example_z = Inr [D1, D0, D2]"
    using gold_manager_documents by (simp_all only: s1 c(2))
  with h s1 s2 s3 show ?thesis by blast
qed

text \<open>
  A classic manager with \<open>gold_position = 5\<close> and a two-entry ranking: the list the
  assembler walks is \<open>[1, 2, 0]\<close>, with the gold index at position 2; it has no
  position 5.
\<close>

theorem splice_gold_beyond_end:
  "gold_position (config gold_far_manager) = Some 5
   \<and> table_lookup (search_results gold_far_manager) (example_id example_z) = Inr [1, 2]
   \<and> classic_indices gold_far_manager example_z = Inr [1, 2, 0]
   \<and> py_index [1, 2, 0 :: int] 5 = Inl IndexError"
  by code_simp

section \<open>The classic family\<close>

text \<open>
  C1, as amended. For the classic family with \<open>N = num_documents_in_context \<ge> 0\<close>, the
  assembler examines only the first \<open>N\<close> entries of the (possibly gold-spliced) ranked
  index list, in order, and keeps of them each document for which the answer-exclusion
  filter is off or whose text holds no gold answer. So it returns at most \<open>N\<close>
  documents, and exactly \<open>N\<close> precisely when the list has at least \<open>N\<close> entries and
  every one of the first \<open>N\<close> passes the filter.
\<close>

theorem classic_documents_filtered_prefix:
  assumes run: "get_classic_documents m ex = Inr docs"
    and n0: "0 \<le> num_documents_in_context (config m)"
  shows "\<exists>idxs cands.
           classic_indices m ex = Inr idxs
           \<and> fetch_documents (corpus m)
                 (take (nat (num_documents_in_context (config m))) idxs) = Inr cands
           \<and> docs = filter (\<lambda>d. \<not> get_documents_without_answer (config m)
                                  \<or> \<not> is_answer_in_text_fn m (doc_text d) (answers ex)) cands
           \<and> length docs \<le> nat (num_documents_in_context (config m))
           \<and> (length docs = nat (num_documents_in_context (config m)) \<longleftrightarrow>
                nat (num_documents_in_context (config m)) \<le> length idxs
                \<and> (\<forall>d\<in>set cands. \<not> get_documents_without_answer (config m)
                                  \<or> \<not> is_answer_in_text_fn m (doc_text d) (answers ex)))"
proof -
  define n where "n = nat (num_documents_in_context (config m))"
  define keep where "keep = (\<lambda>d :: document. \<not> get_documents_without_answer (config m)
                                  \<or> \<not> is_answer_in_text_fn m (doc_text d) (answers ex))"
  from run obtain idxs where idxs: "classic_indices m ex = Inr idxs"
    by (auto simp: get_classic_documents_def split: sum.splits)
  from run idxs n0 obtain cands where
    cands: "fetch_documents (corpus m) (take n idxs) = Inr cands"
    and docs: "docs = py_slice_to (filter keep cands) (num_documents_in_context (config m))"
    by (auto simp: get_classic_documents_def classic_loop_fetch py_slice_to_nonneg n_def keep_def
             split: sum.splits)
  have lc: "length cands = min n (length idxs)"
    using fetch_documents_length [OF cands] by simp
  then have short: "length cands \<le> n" by simp
  have docs': "docs = filter keep cands"
    using docs n0 short by (simp add: py_slice_to_nonneg take_filter_short n_def)
  have le: "length docs \<le> n"
    unfolding docs' using short by (meson le_trans length_filter_le)
  have iff: "length docs = n \<longleftrightarrow> n \<le> length idxs \<and> (\<forall>d\<in>set cands. keep d)"
  proof
    assume "length docs = n"
    then have full: "length (filter keep cands) = length cands" and cn: "length cands = n"
      using short length_filter_le [of keep cands] unfolding docs' by linarith+
    from cn lc have "n \<le> length idxs" by linarith
    moreover from full have "\<forall>d\<in>set cands. keep d"
      using length_filter_full [of keep cands] by blast
    ultimately show "n \<le> length idxs \<and> (\<forall>d\<in>set cands. keep d)" by blast
  next
    assume a: "n \<le> length idxs \<and> (\<forall>d\<in>set cands. keep d)"
    then have "length (filter keep cands) = length cands"
      using length_filter_full [of keep cands] by blast
    moreover from a lc have "length cands = n" by linarith
    ultimately show "length docs = n"
      unfolding docs' by simp
  qed
  show ?thesis
    using idxs cands docs' le iff unfolding n_def keep_def by blast
qed

theorem classic_documents_filtered_prefix_witness:
  "get_classic_documents classic_manager example_x = Inr [D1]
   \<and> 0 \<le> num_documents_in_context (config classic_manager)
   \<and> (\<exists>idxs cands.
         classic_indices classic_manager example_x = Inr idxs
         \<and> fetch_documents (corpus classic_manager)
               (take (nat (num_documents_in_context (config classic_manager))) idxs) = Inr cands
         \<and> [D1] = filter (\<lambda>d. \<not> get_documents_without_answer (config classic_manager)
                                \<or> \<not> is_answer_in_text_fn classic_manager (doc_text d)
                                        (answers example_x)) cands)"
proof -
  have n0: "0 \<le> num_documents_in_context (config classic_manager)"
    by (simp add: classic_manager_def)
  show ?thesis
    using classic_documents_filtered_prefix [OF classic_manager_documents n0]
          classic_manager_documents n0
    by blast
qed

text \<open>
  Ranking \<open>[0, 1, 2]\<close>, two documents asked for, filter on: the first document holds the
  answer and the other two do not, so two documents of the list pass the filter; the
  walk ends after the first two entries and one document is returned.
\<close>

theorem classic_stops_after_n_candidates:
  "classic_indices classic_manager example_x = Inr [0, 1, 2]
   \<and> fetch_documents (corpus classic_manager) [0, 1, 2] = Inr [D0, D1, D2]
   \<and> num_documents_in_context (config classic_manager) = 2
   \<and> get_documents_without_answer (config classic_manager)
   \<and> map (\<lambda>d. is_answer_in_text_fn classic_manager (doc_text d) (answers example_x))
        [D0, D1, D2] = [True, False, False]
   \<and> get_classic_documents classic_manager example_x = Inr [D1]"
proof -
  have "fetch_documents (corpus classic_manager) [0, 1, 2] = Inr [D0, D1, D2]"
    by code_simp
  moreover have "num_documents_in_context (config classic_manager) = 2"
    and "get_documents_without_answer (config classic_manager)"
    by (simp_all add: classic_manager_def default_config_def)
  moreover have "map (\<lambda>d. is_answer_in_text_fn classic_manager (doc_text d) (answers example_x))
                   [D0, D1, D2] = [True, False, False]"
    by code_simp
  ultimately show ?thesis
    using classic_manager_indices classic_manager_documents by simp
qed

section \<open>The mixed family\<close>

text \<open>
  C4. For a mixed configuration whose two counts are set and are not negative, the
  context has length \<open>min(num_retrieved_documents, length of the retriever ranking) +
  min(num_random_documents, length of the random ranking)\<close>; it is the corpus documents
  at the retrieved prefix followed by those at the random prefix when
  \<open>put_retrieved_first\<close> is true, and the other way round otherwise; every index of
  the two prefixes contributes its document, so nothing is filtered.
\<close>

theorem mixed_documents_length_and_order:
  assumes run: "get_mixed_documents m ex = Inr docs"
    and nr: "num_retrieved_documents (config m) = Some a"
    and nd: "num_random_documents (config m) = Some b"
    and a0: "0 \<le> a" and b0: "0 \<le> b"
  shows "\<exists>retr rand.
           table_lookup (retriever_results m) (example_id ex) = Inr retr
           \<and> table_lookup (random_results m) (example_id ex) = Inr rand
           \<and> length docs = min (nat a) (length retr) + min (nat b) (length rand)
           \<and> list_all2 (\<lambda>i d. corpus_get (corpus m) i = Inr d)
                 (if put_retrieved_first (config m)
                  then take (nat a) retr @ take (nat b) rand
                  else take (nat b) rand @ take (nat a) retr)
                 docs"
proof -
  from run obtain retr rand where
    retr: "table_lookup (retriever_results m) (example_id ex) = Inr retr"
    and rand: "table_lookup (random_results m) (example_id ex) = Inr rand"
    by (auto simp: get_mixed_documents_def split: sum.splits)
  let ?idxs = "if put_retrieved_first (config m)
               then take (nat a) retr @ take (nat b) rand
               else take (nat b) rand @ take (nat a) retr"
  from run retr rand nr nd a0 b0 have f: "fetch_documents (corpus m) ?idxs = Inr docs"
    by (simp add: get_mixed_documents_def py_slice_to_opt_def py_slice_to_nonneg Let_def)
  have "length docs = length ?idxs"
    using fetch_documents_length [OF f] .
  then have len: "length docs = min (nat a) (length retr) + min (nat b) (length rand)"
    by (simp add: min.commute split: if_splits)
  from f have "list_all2 (\<lambda>i d. corpus_get (corpus m) i = Inr d) ?idxs docs"
    by (rule fetch_documents_sound)
  with retr rand len show ?thesis by blast
qed

theorem mixed_documents_length_and_order_witness:
  "get_mixed_documents mixed_manager example_x = Inr [D1, D2, D0]
   \<and> (\<exists>retr rand.
         table_lookup (retriever_results mixed_manager) (example_id example_x) = Inr retr
         \<and> table_lookup (random_results mixed_manager) (example_id example_x) = Inr rand
         \<and> length [D1, D2, D0] = min (nat 2) (length retr) + min (nat 1) (length rand)
         \<and> list_all2 (\<lambda>i d. corpus_get (corpus mixed_manager) i = Inr d)
               (if put_retrieved_first (config mixed_manager)
                then take (nat 2) retr @ take (nat 1) rand
                else take (nat 1) rand @ take (nat 2) retr)
               [D1, D2, D0])"
proof -
  have nr: "num_retrieved_documents (config mixed_manager) = Some 2"
    and nd: "num_random_documents (config mixed_manager) = Some 1"
    by (simp_all add: mixed_manager_def)
  show ?thesis
    using mixed_manager_documents
          mixed_documents_length_and_order [OF mixed_manager_documents nr nd]
    by simp
qed

section \<open>The size of the context\<close>

lemma multi_corpus_manager_documents:
  "get_multi_corpus_documents multi_corpus_manager example_x = Inr [D0, D1, D2]"
  by code_simp

lemma mixed_ignores_n:
  "get_mixed_documents (m\<lparr> config := (config m)\<lparr> num_documents_in_context := n \<rparr> \<rparr>) ex
     = get_mixed_documents m ex"
  by (simp add: get_mixed_documents_def cong: sum.case_cong)

lemma multi_corpus_ignores_n:
  "get_multi_corpus_documents (m\<lparr> config := (config m)\<lparr> num_documents_in_context := n \<rparr> \<rparr>) ex
     = get_multi_corpus_documents m ex"
  by (simp add: get_multi_corpus_documents_def cong: sum.case_cong)

text \<open>
  C3, as amended. The classic family returns at most \<open>num_documents_in_context\<close>
  documents (for a count that is not negative). The mixed context holds at most
  \<open>num_retrieved_documents + num_random_documents\<close> documents and the multi-corpus
  context at most \<open>num_main_documents + num_other_documents\<close>. For every family other
  than classic the assembler does not consult \<open>num_documents_in_context\<close>: changing it
  to any other value leaves the result the same.
\<close>

theorem context_length_bounds:
  "(get_documents m ex = Inr docs \<longrightarrow>
      (experiment_type (config m) = ''classic'' \<and> 0 \<le> num_documents_in_context (config m)
         \<longrightarrow> length docs \<le> nat (num_documents_in_context (config m)))
      \<and> (experiment_type (config m) = ''mixed''
          \<and> num_retrieved_documents (config m) = Some a
          \<and> num_random_documents (config m) = Some b \<and> 0 \<le> a \<and> 0 \<le> b
         \<longrightarrow> length docs \<le> nat a + nat b)
      \<and> (experiment_type (config m) = ''multi_corpus''
          \<and> num_main_documents (config m) = Some a
          \<and> num_other_documents (config m) = Some b \<and> 0 \<le> a \<and> 0 \<le> b
         \<longrightarrow> length docs \<le> nat a + nat b))
   \<and> (experiment_type (config m) \<noteq> ''classic'' \<longrightarrow>
        get_documents (m\<lparr> config := (config m)\<lparr> num_documents_in_context := n \<rparr> \<rparr>) ex
          = get_documents m ex)"
proof (intro conjI impI)
  assume run: "get_documents m ex = Inr docs"
    and h: "experiment_type (config m) = ''classic'' \<and> 0 \<le> num_documents_in_context (config m)"
  let ?n = "num_documents_in_context (config m)"
  from run h obtain ds where "docs = py_slice_to ds ?n"
    by (auto simp: get_documents_def get_classic_documents_def split: sum.splits)
  with h show "length docs \<le> nat ?n"
    by (simp add: py_slice_to_nonneg)
next
  assume run: "get_documents m ex = Inr docs"
    and h: "experiment_type (config m) = ''mixed''
            \<and> num_retrieved_documents (config m) = Some a
            \<and> num_random_documents (config m) = Some b \<and> 0 \<le> a \<and> 0 \<le> b"
  with run obtain retr rand where
    "fetch_documents (corpus m)
       (if put_retrieved_first (config m)
        then take (nat a) retr @ take (nat b) rand
        else take (nat b) rand @ take (nat a) retr) = Inr docs"
    by (auto simp: get_documents_def get_mixed_documents_def py_slice_to_opt_def
                   py_slice_to_nonneg Let_def split: sum.splits if_splits)
  from fetch_documents_length [OF this] show "length docs \<le> nat a + nat b"
    by (auto simp: min_def split: if_splits)
next
  assume run: "get_documents m ex = Inr docs"
    and h: "experiment_type (config m) = ''multi_corpus''
            \<and> num_main_documents (config m) = Some a
            \<and> num_other_documents (config m) = Some b \<and> 0 \<le> a \<and> 0 \<le> b"
  with run obtain mainr other where
    "fetch_documents (corpus m)
       (if put_main_first (config m)
        then take (nat a) mainr @ take (nat b) other
        else take (nat b) other @ take (nat a) mainr) = Inr docs"
    by (auto simp: get_documents_def get_multi_corpus_documents_def py_slice_to_opt_def
                   py_slice_to_nonneg Let_def split: sum.splits if_splits)
  from fetch_documents_length [OF this] show "length docs \<le> nat a + nat b"
    by (auto simp: min_def split: if_splits)
next
  assume "experiment_type (config m) \<noteq> ''classic''"
  then show "get_documents (m\<lparr> config := (config m)\<lparr> num_documents_in_context := n \<rparr> \<rparr>) ex
          = get_documents m ex"
    by (simp add: get_documents_def mixed_ignores_n multi_corpus_ignores_n)
qed

theorem context_length_bounds_witness:
  "get_documents classic_manager example_x = Inr [D1]
   \<and> length [D1] \<le> nat (num_documents_in_context (config classic_manager))
   \<and> get_documents mixed_manager example_x = Inr [D1, D2, D0]
   \<and> length [D1, D2, D0] \<le> nat 2 + nat 1
   \<and> get_documents multi_corpus_manager example_x = Inr [D0, D1, D2]
   \<and> length [D0, D1, D2] \<le> nat 2 + nat 1
   \<and> get_documents
        (mixed_manager\<lparr> config := (config mixed_manager)\<lparr> num_documents_in_context := 7 \<rparr> \<rparr>)
        example_x = Inr [D1, D2, D0]
   \<and> get_documents
        (multi_corpus_manager
           \<lparr> config := (config multi_corpus_manager)\<lparr> num_documents_in_context := 7 \<rparr> \<rparr>)
        example_x = Inr [D0, D1, D2]"
proof -
  have c: "get_documents classic_manager example_x = Inr [D1]"
    using classic_manager_documents
    by (simp add: get_documents_def classic_manager_def default_config_def)
  have m: "get_documents mixed_manager example_x = Inr [D1, D2, D0]"
    using mixed_manager_documents by (simp add: get_documents_def mixed_manager_def)
  have u: "get_documents multi_corpus_manager example_x = Inr [D0, D1, D2]"
    using multi_corpus_manager_documents
    by (simp add: get_documents_def multi_corpus_manager_def)
  have "length [D1] \<le> nat (num_documents_in_context (config classic_manager))"
    using context_length_bounds [of classic_manager example_x "[D1]" 0 0 0] c
    by (simp add: classic_manager_def default_config_def)
  moreover have "length [D1, D2, D0] \<le> nat 2 + nat 1"
    using context_length_bounds [of mixed_manager example_x "[D1, D2, D0]" 2 1 0] m
    by (simp add: mixed_manager_def)
  moreover have "length [D0, D1, D2] \<le> nat 2 + nat 1"
    using context_length_bounds [of multi_corpus_manager example_x "[D0, D1, D2]" 2 1 0] u
    by (simp add: multi_corpus_manager_def)
  moreover have "get_documents
        (mixed_manager\<lparr> config := (config mixed_manager)\<lparr> num_documents_in_context := 7 \<rparr> \<rparr>)
        example_x = Inr [D1, D2, D0]"
    using context_length_bounds [of mixed_manager example_x "[D1, D2, D0]" 2 1 7] m
    by (simp add: mixed_manager_def)
  moreover have "get_documents
        (multi_corpus_manager
           \<lparr> config := (config multi_corpus_manager)\<lparr> num_documents_in_context := 7 \<rparr> \<rparr>)
        example_x = Inr [D0, D1, D2]"
    using context_length_bounds [of multi_corpus_manager example_x "[D0, D1, D2]" 2 1 7] u
    by (simp add: multi_corpus_manager_def)
  ultimately show ?thesis using c m u by blast
qed

text \<open>
  Two valid configurations with \<open>num_documents_in_context = 1\<close>, one mixed (two
  retrieved documents and one random) and one multi-corpus (two main documents and one
  other): each context holds three documents.
\<close>

theorem mixed_context_exceeds_n:
  "validate (config mixed_manager) = Inr ()
   \<and> num_documents_in_context (config mixed_manager) = 1
   \<and> get_documents mixed_manager example_x = Inr [D1, D2, D0]
   \<and> \<not> length [D1, D2, D0] \<le> nat (num_documents_in_context (config mixed_manager))
   \<and> validate (config multi_corpus_manager) = Inr ()
   \<and> num_documents_in_context (config multi_corpus_manager) = 1
   \<and> get_documents multi_corpus_manager example_x = Inr [D0, D1, D2]
   \<and> \<not> length [D0, D1, D2] \<le> nat (num_documents_in_context (config multi_corpus_manager))"
  using mixed_manager_documents multi_corpus_manager_documents
  by (simp add: get_documents_def validate_def mixed_manager_def multi_corpus_manager_def
                default_config_def)

section \<open>Running the assembler twice\<close>

lemma st_bind_Inr: "f s = (Inr x, s') \<Longrightarrow> st_bind f g s = g x s'"
  by (simp add: st_bind_def)

lemma st_bind_Inl: "f s = (Inl e, s') \<Longrightarrow> st_bind f g s = (Inl e, s')"
  by (simp add: st_bind_def)

lemma st_corpus_get_run:
  "st_corpus_get c i s
     = (corpus_get (case c of None \<Rightarrow> None | Some a \<Rightarrow> doc_objs s a) i, s)"
  by (simp add: st_corpus_get_def corpus_get_def st_bind_def read_docs_def st_raise_def
                st_return_def split: option.splits sum.splits)

lemma st_classic_loop_run:
  assumes "doc_objs s d = Some acc" and "sm_corpus m \<noteq> Some d"
  shows "\<exists>acc'. st_classic_loop m ex d idxs s
           = (map_sum id (\<lambda>r. ())
                (classic_loop (case sm_corpus m of None \<Rightarrow> None | Some a \<Rightarrow> doc_objs s a)
                   (get_documents_without_answer (sm_config m))
                   (\<lambda>t. sm_is_answer_in_text m t (answers ex)) idxs acc),
              s\<lparr> doc_objs := (doc_objs s)(d \<mapsto> acc') \<rparr>)
         \<and> (\<forall>r. classic_loop (case sm_corpus m of None \<Rightarrow> None | Some a \<Rightarrow> doc_objs s a)
                   (get_documents_without_answer (sm_config m))
                   (\<lambda>t. sm_is_answer_in_text m t (answers ex)) idxs acc = Inr r
                 \<longrightarrow> acc' = r)"
  using assms
proof (induction idxs arbitrary: s acc)
  case Nil
  then have e: "s\<lparr> doc_objs := (doc_objs s)(d \<mapsto> acc) \<rparr> = s"
    by (simp add: map_upd_triv)
  show ?case by (rule exI [of _ acc], simp only: e, simp add: st_return_def)
next
  case (Cons i rest)
  let ?cp = "\<lambda>s. case sm_corpus m of None \<Rightarrow> None | Some a \<Rightarrow> doc_objs s a"
  show ?case
  proof (cases "corpus_get (?cp s) i")
    case (Inl e)
    have e: "s\<lparr> doc_objs := (doc_objs s)(d \<mapsto> acc) \<rparr> = s"
      using Cons.prems by (simp add: map_upd_triv)
    show ?thesis
      using Inl by (intro exI [of _ acc], simp only: e, simp add: st_bind_def st_corpus_get_run)
  next
    case (Inr doc)
    show ?thesis
    proof (cases "\<not> get_documents_without_answer (sm_config m)
                   \<or> \<not> sm_is_answer_in_text m (doc_text doc) (answers ex)")
      case True
      let ?s1 = "s\<lparr> doc_objs := (doc_objs s)(d \<mapsto> acc @ [doc]) \<rparr>"
      have d1: "doc_objs ?s1 d = Some (acc @ [doc])" by simp
      have cp: "?cp ?s1 = ?cp s"
        using Cons.prems(2) by (auto split: option.splits)
      from Cons.IH [OF d1 Cons.prems(2), unfolded cp]
      obtain acc' where
        run: "st_classic_loop m ex d rest ?s1
                = (map_sum id (\<lambda>r. ())
                     (classic_loop (?cp s) (get_documents_without_answer (sm_config m))
                        (\<lambda>t. sm_is_answer_in_text m t (answers ex)) rest (acc @ [doc])),
                   ?s1\<lparr> doc_objs := (doc_objs ?s1)(d \<mapsto> acc') \<rparr>)"
        and res: "\<forall>r. classic_loop (?cp s) (get_documents_without_answer (sm_config m))
                        (\<lambda>t. sm_is_answer_in_text m t (answers ex)) rest (acc @ [doc]) = Inr r
                      \<longrightarrow> acc' = r"
        by blast
      have step: "st_classic_loop m ex d (i # rest) s = st_classic_loop m ex d rest ?s1"
        using Inr True Cons.prems(1)
        by (auto simp: st_bind_def st_corpus_get_run append_doc_def)
      have pure: "classic_loop (?cp s) (get_documents_without_answer (sm_config m))
                    (\<lambda>t. sm_is_answer_in_text m t (answers ex)) (i # rest) acc
                  = classic_loop (?cp s) (get_documents_without_answer (sm_config m))
                      (\<lambda>t. sm_is_answer_in_text m t (answers ex)) rest (acc @ [doc])"
        using Inr True by simp
      have st: "?s1\<lparr> doc_objs := (doc_objs ?s1)(d \<mapsto> acc') \<rparr>
                  = s\<lparr> doc_objs := (doc_objs s)(d \<mapsto> acc') \<rparr>"
        by simp
      show ?thesis
        unfolding step pure using run [unfolded st] res by blast
    next
      case False
      from Cons.IH [OF Cons.prems]
      obtain acc' where
        run: "st_classic_loop m ex d rest s
                = (map_sum id (\<lambda>r. ())
                     (classic_loop (?cp s) (get_documents_without_answer (sm_config m))
                        (\<lambda>t. sm_is_answer_in_text m t (answers ex)) rest acc),
                   s\<lparr> doc_objs := (doc_objs s)(d \<mapsto> acc') \<rparr>)"
        and res: "\<forall>r. classic_loop (?cp s) (get_documents_without_answer (sm_config m))
                        (\<lambda>t. sm_is_answer_in_text m t (answers ex)) rest acc = Inr r
                      \<longrightarrow> acc' = r"
        by blast
      have step: "st_classic_loop m ex d (i # rest) s = st_classic_loop m ex d rest s"
        using Inr False by (auto simp: st_bind_def st_corpus_get_run)
      have pure: "classic_loop (?cp s) (get_documents_without_answer (sm_config m))
                    (\<lambda>t. sm_is_answer_in_text m t (answers ex)) (i # rest) acc
                  = classic_loop (?cp s) (get_documents_without_answer (sm_config m))
                      (\<lambda>t. sm_is_answer_in_text m t (answers ex)) rest acc"
        using Inr False by simp
      show ?thesis
        unfolding step pure using run res by blast
    qed
  qed
qed


lemma st_fetch_loop_run:
  assumes "doc_objs s d = Some acc" and "sm_corpus m \<noteq> Some d"
  shows "\<exists>acc'. st_fetch_loop m d idxs s
           = (map_sum id (\<lambda>r. ())
                (fetch_documents (case sm_corpus m of None \<Rightarrow> None | Some a \<Rightarrow> doc_objs s a)
                   idxs),
              s\<lparr> doc_objs := (doc_objs s)(d \<mapsto> acc') \<rparr>)
         \<and> (\<forall>r. fetch_documents (case sm_corpus m of None \<Rightarrow> None | Some a \<Rightarrow> doc_objs s a)
                   idxs = Inr r
                 \<longrightarrow> acc' = acc @ r)"
  using assms
proof (induction idxs arbitrary: s acc)
  case Nil
  then have e: "s\<lparr> doc_objs := (doc_objs s)(d \<mapsto> acc) \<rparr> = s"
    by (simp add: map_upd_triv)
  show ?case by (rule exI [of _ acc], simp only: e, simp add: st_return_def)
next
  case (Cons i rest)
  let ?cp = "\<lambda>s. case sm_corpus m of None \<Rightarrow> None | Some a \<Rightarrow> doc_objs s a"
  show ?case
  proof (cases "corpus_get (?cp s) i")
    case (Inl e)
    have e: "s\<lparr> doc_objs := (doc_objs s)(d \<mapsto> acc) \<rparr> = s"
      using Cons.prems by (simp add: map_upd_triv)
    show ?thesis
      using Inl by (intro exI [of _ acc], simp only: e, simp add: st_bind_def st_corpus_get_run)
  next
    case (Inr doc)
    let ?s1 = "s\<lparr> doc_objs := (doc_objs s)(d \<mapsto> acc @ [doc]) \<rparr>"
    have d1: "doc_objs ?s1 d = Some (acc @ [doc])" by simp
    have cp: "?cp ?s1 = ?cp s"
      using Cons.prems(2) by (auto split: option.splits)
    from Cons.IH [OF d1 Cons.prems(2), unfolded cp]
    obtain acc' where
      run: "st_fetch_loop m d rest ?s1
              = (map_sum id (\<lambda>r. ()) (fetch_documents (?cp s) rest),
                 ?s1\<lparr> doc_objs := (doc_objs ?s1)(d \<mapsto> acc') \<rparr>)"
      and res: "\<forall>r. fetch_documents (?cp s) rest = Inr r \<longrightarrow> acc' = (acc @ [doc]) @ r"
      by blast
    have step: "st_fetch_loop m d (i # rest) s = st_fetch_loop m d rest ?s1"
      using Inr Cons.prems(1)
      by (auto simp: st_bind_def st_corpus_get_run append_doc_def)
    have st: "?s1\<lparr> doc_objs := (doc_objs ?s1)(d \<mapsto> acc') \<rparr>
                = s\<lparr> doc_objs := (doc_objs s)(d \<mapsto> acc') \<rparr>"
      by simp
    have m1: "map_sum id (\<lambda>r. ()) (fetch_documents (?cp s) (i # rest))
                = map_sum id (\<lambda>r. ()) (fetch_documents (?cp s) rest)"
      using Inr by (simp split: sum.splits)
    have m2: "\<forall>r. fetch_documents (?cp s) (i # rest) = Inr r \<longrightarrow> acc' = acc @ r"
      using Inr res by (auto split: sum.splits)
    show ?thesis
      unfolding step m1 using run [unfolded st] m2 by blast
  qed
qed

lemma st_splice_gold_run:
  assumes "idx_objs s a = Some xs" and "a < fresh s"
  shows "\<exists>s'. st_splice_gold a g gold s = (Inr (fresh s + 4), s')
           \<and> idx_objs s' (fresh s + 4) = Some (splice_gold xs g gold)
           \<and> fresh s' = fresh s + 5 \<and> doc_objs s' = doc_objs s
           \<and> (\<forall>b<fresh s. idx_objs s' b = idx_objs s b)"
  using assms
  by (simp add: st_splice_gold_def st_bind_def st_slice_to_def st_slice_from_def st_concat_def
                read_idx_def alloc_idx_def splice_gold_def py_slice_to_opt_def)

lemma classic_tail_run:
  assumes d: "doc_objs s d = Some []" and ri: "idx_objs s ri = Some L"
    and c: "sm_corpus m \<noteq> Some d"
  shows "\<exists>r s'.
           st_bind (st_slice_to ri (Some n)) (\<lambda>sliced.
             st_bind (read_idx sliced) (\<lambda>idxs.
               st_bind (st_classic_loop m ex d idxs) (\<lambda>_. st_slice_docs_to d n))) s = (r, s')
           \<and> fresh s \<le> fresh s'
           \<and> (\<forall>b<fresh s. idx_objs s' b = idx_objs s b
                           \<and> (b \<noteq> d \<longrightarrow> doc_objs s' b = doc_objs s b))
           \<and> outcome (r, s')
               = (case classic_loop (case sm_corpus m of None \<Rightarrow> None | Some a \<Rightarrow> doc_objs s a)
                         (get_documents_without_answer (sm_config m))
                         (\<lambda>t. sm_is_answer_in_text m t (answers ex)) (py_slice_to L n) [] of
                    Inl e \<Rightarrow> Inl e
                  | Inr docs \<Rightarrow> Inr (py_slice_to docs n))"
proof -
  let ?s2 = "s\<lparr> idx_objs := (idx_objs s)(fresh s \<mapsto> py_slice_to L n), fresh := Suc (fresh s) \<rparr>"
  let ?cp = "case sm_corpus m of None \<Rightarrow> None | Some a \<Rightarrow> doc_objs s a"
  let ?pure = "classic_loop ?cp (get_documents_without_answer (sm_config m))
                 (\<lambda>t. sm_is_answer_in_text m t (answers ex)) (py_slice_to L n) []"
  have d2: "doc_objs ?s2 d = Some []" using d by simp
  have cp2: "(case sm_corpus m of None \<Rightarrow> None | Some a \<Rightarrow> doc_objs ?s2 a) = ?cp"
    by (simp split: option.splits)
  from st_classic_loop_run [OF d2 c, of ex "py_slice_to L n", unfolded cp2]
  obtain acc' where
    run: "st_classic_loop m ex d (py_slice_to L n) ?s2
            = (map_sum id (\<lambda>r. ()) ?pure, ?s2\<lparr> doc_objs := (doc_objs ?s2)(d \<mapsto> acc') \<rparr>)"
    and res: "\<forall>r. ?pure = Inr r \<longrightarrow> acc' = r"
    by blast
  let ?s3 = "?s2\<lparr> doc_objs := (doc_objs ?s2)(d \<mapsto> acc') \<rparr>"
  have front: "st_bind (st_slice_to ri (Some n)) (\<lambda>sliced.
             st_bind (read_idx sliced) (\<lambda>idxs.
               st_bind (st_classic_loop m ex d idxs) (\<lambda>_. st_slice_docs_to d n))) s
         = st_bind (st_classic_loop m ex d (py_slice_to L n)) (\<lambda>_. st_slice_docs_to d n) ?s2"
    using ri
    by (simp add: st_bind_def st_slice_to_def read_idx_def alloc_idx_def py_slice_to_opt_def)
  show ?thesis
  proof (cases ?pure)
    case (Inl e)
    then have "st_bind (st_classic_loop m ex d (py_slice_to L n)) (\<lambda>_. st_slice_docs_to d n) ?s2
                 = (Inl e, ?s3)"
      using run by (simp add: st_bind_def)
    then show ?thesis
      unfolding front using Inl
      by (intro exI [of _ "Inl e"] exI [of _ ?s3]) (simp add: outcome_def)
  next
    case (Inr docs)
    with res have acc: "acc' = docs" by simp
    let ?s4 = "?s3\<lparr> doc_objs := (doc_objs ?s3)(fresh ?s3 \<mapsto> py_slice_to docs n),
                     fresh := Suc (fresh ?s3) \<rparr>"
    have "st_bind (st_classic_loop m ex d (py_slice_to L n)) (\<lambda>_. st_slice_docs_to d n) ?s2
            = (Inr (fresh ?s3), ?s4)"
      using run Inr acc
      by (simp add: st_bind_def st_slice_docs_to_def read_docs_def alloc_docs_def)
    then show ?thesis
      unfolding front using Inr
      by (intro exI [of _ "Inr (fresh ?s3)"] exI [of _ ?s4]) (simp add: outcome_def)
  qed
qed

lemma gold_step_run:
  assumes a: "idx_objs s a0 = Some xs" and lt: "a0 < fresh s"
  shows "\<exists>r s'.
           (case gp of
              None \<Rightarrow> st_return a0
            | Some g \<Rightarrow> (case gi of None \<Rightarrow> st_raise KeyError
                                  | Some gold_idx \<Rightarrow> st_splice_gold a0 g gold_idx)) s = (r, s')
           \<and> fresh s \<le> fresh s' \<and> doc_objs s' = doc_objs s
           \<and> (\<forall>b<fresh s. idx_objs s' b = idx_objs s b)
           \<and> (case r of
                 Inl e \<Rightarrow> (case gp of None \<Rightarrow> Inr xs
                            | Some g \<Rightarrow> (case gi of None \<Rightarrow> Inl KeyError
                                          | Some gold_idx \<Rightarrow> Inr (splice_gold xs g gold_idx)))
                          = Inl e
               | Inr ri \<Rightarrow> (\<exists>L. (case gp of None \<Rightarrow> Inr xs
                                   | Some g \<Rightarrow> (case gi of None \<Rightarrow> Inl KeyError
                                                 | Some gold_idx \<Rightarrow> Inr (splice_gold xs g gold_idx)))
                                 = (Inr L :: error + int list)
                               \<and> idx_objs s' ri = Some L))"
proof (cases gp)
  case None
  then show ?thesis using a by (simp add: st_return_def)
next
  case (Some g)
  show ?thesis
  proof (cases gi)
    case None
    with Some show ?thesis by (simp add: st_raise_def)
  next
    case (Some gold)
    from st_splice_gold_run [OF a lt, of g gold] obtain s' where
      "st_splice_gold a0 g gold s = (Inr (fresh s + 4), s')"
      "idx_objs s' (fresh s + 4) = Some (splice_gold xs g gold)"
      "fresh s' = fresh s + 5" "doc_objs s' = doc_objs s"
      "\<forall>b<fresh s. idx_objs s' b = idx_objs s b"
      by blast
    with \<open>gp = Some g\<close> Some show ?thesis by simp
  qed
qed

lemma wf_table_lookup:
  assumes "table_ok s t"
  shows "(\<exists>e. st_table_lookup t idx s = (Inl e, s) \<and> table_lookup (table_of s t) idx = Inl e)
       \<or> (\<exists>a xs. st_table_lookup t idx s = (Inr a, s) \<and> a < fresh s \<and> idx_objs s a = Some xs
                 \<and> table_lookup (table_of s t) idx = Inr xs)"
proof (cases t)
  case None
  then show ?thesis
    by (simp add: st_table_lookup_def table_lookup_def table_of_def st_raise_def)
next
  case (Some tbl)
  show ?thesis
  proof (cases "tbl idx")
    case None
    with Some show ?thesis
      by (simp add: st_table_lookup_def table_lookup_def table_of_def st_raise_def)
  next
    case (Some a)
    then have "a \<in> ran tbl" by (auto simp: ran_def)
    with assms \<open>t = Some tbl\<close> obtain xs where "a < fresh s" "idx_objs s a = Some xs"
      by (auto simp: table_ok_def)
    with Some \<open>t = Some tbl\<close> show ?thesis
      by (simp add: st_table_lookup_def table_lookup_def table_of_def st_return_def)
  qed
qed

lemma st_classic_run:
  assumes wf: "wf_store s m"
  shows "unchanged_below (fresh s) s (snd (st_get_classic_documents m ex s))
       \<and> outcome (st_get_classic_documents m ex s) = get_classic_documents (manager_of s m) ex"
proof -
  let ?M = "manager_of s m"
  from wf have tok: "table_ok s (sm_search_results m)" by (simp add: wf_store_def)
  from wf_table_lookup [OF tok, of "example_id ex"]
  consider e where "st_table_lookup (sm_search_results m) (example_id ex) s = (Inl e, s)"
        "table_lookup (search_results ?M) (example_id ex) = Inl e"
    | a0 xs where "st_table_lookup (sm_search_results m) (example_id ex) s = (Inr a0, s)"
        "a0 < fresh s" "idx_objs s a0 = Some xs"
        "table_lookup (search_results ?M) (example_id ex) = Inr xs"
    by (auto simp: manager_of_def)
  then show ?thesis
  proof cases
    case 1
    then show ?thesis
      by (simp add: st_get_classic_documents_def st_bind_def get_classic_documents_def
                    classic_indices_def unchanged_below_def outcome_def)
  next
    case 2
    let ?d = "fresh s"
    let ?s1 = "s\<lparr> doc_objs := (doc_objs s)(fresh s \<mapsto> []), fresh := Suc (fresh s) \<rparr>"
    let ?n = "num_documents_in_context (sm_config m)"
    let ?gp = "gold_position (sm_config m)"
    let ?gi = "idx_gold_in_corpus ex"
    let ?pidx = "case ?gp of None \<Rightarrow> Inr xs
                 | Some g \<Rightarrow> (case ?gi of None \<Rightarrow> Inl KeyError
                               | Some gold_idx \<Rightarrow> Inr (splice_gold xs g gold_idx))"
    have ci: "classic_indices ?M ex = ?pidx"
      using 2(4) by (simp add: classic_indices_def manager_of_def)
    have cnd: "sm_corpus m \<noteq> Some ?d"
      using wf by (auto simp: wf_store_def)
    have cp: "(case sm_corpus m of None \<Rightarrow> None | Some a \<Rightarrow> doc_objs s' a) = corpus ?M"
      if "\<forall>b<fresh s. b \<noteq> ?d \<longrightarrow> doc_objs s' b = doc_objs s b" for s'
      using wf that by (auto simp: wf_store_def manager_of_def split: option.splits)
    have a1: "idx_objs ?s1 a0 = Some xs" "a0 < fresh ?s1" using 2 by simp_all
    from gold_step_run [OF a1, where gp = ?gp and gi = ?gi] obtain r s2 where
      g: "(case ?gp of None \<Rightarrow> st_return a0
           | Some g \<Rightarrow> (case ?gi of None \<Rightarrow> st_raise KeyError
                                   | Some gold_idx \<Rightarrow> st_splice_gold a0 g gold_idx)) ?s1 = (r, s2)"
      and f2: "fresh ?s1 \<le> fresh s2" and d2: "doc_objs s2 = doc_objs ?s1"
      and i2: "\<forall>b<fresh ?s1. idx_objs s2 b = idx_objs ?s1 b"
      and r2: "case r of Inl e \<Rightarrow> ?pidx = Inl e
               | Inr ri \<Rightarrow> (\<exists>L. ?pidx = Inr L \<and> idx_objs s2 ri = Some L)"
      by blast
    have start: "st_get_classic_documents m ex s
       = st_bind (\<lambda>s. (r, s2)) (\<lambda>retrieved_indices.
           st_bind (st_slice_to retrieved_indices (Some ?n)) (\<lambda>sliced.
             st_bind (read_idx sliced) (\<lambda>idxs.
               st_bind (st_classic_loop m ex ?d idxs) (\<lambda>_. st_slice_docs_to ?d ?n)))) ?s1"
      using 2(1) g by (simp add: st_get_classic_documents_def st_bind_def alloc_docs_def)
    show ?thesis
    proof (cases r)
      case (Inl e)
      with r2 have "?pidx = Inl e" by simp
      with ci have "get_classic_documents ?M ex = Inl e"
        by (simp add: get_classic_documents_def)
      moreover have "st_get_classic_documents m ex s = (Inl e, s2)"
        unfolding start using Inl by (simp add: st_bind_def)
      moreover have "unchanged_below (fresh s) s s2"
        using f2 d2 i2 by (auto simp: unchanged_below_def)
      ultimately show ?thesis by (simp add: outcome_def)
    next
      case (Inr ri)
      with r2 obtain L where L: "?pidx = Inr L" "idx_objs s2 ri = Some L" by auto
      have dd: "doc_objs s2 ?d = Some []" using d2 by simp
      from classic_tail_run [OF dd L(2) cnd, of ?n ex] obtain r' s' where
        t: "st_bind (st_slice_to ri (Some ?n)) (\<lambda>sliced.
             st_bind (read_idx sliced) (\<lambda>idxs.
               st_bind (st_classic_loop m ex ?d idxs) (\<lambda>_. st_slice_docs_to ?d ?n))) s2 = (r', s')"
        and f3: "fresh s2 \<le> fresh s'"
        and u3: "\<forall>b<fresh s2. idx_objs s' b = idx_objs s2 b
                             \<and> (b \<noteq> ?d \<longrightarrow> doc_objs s' b = doc_objs s2 b)"
        and o3: "outcome (r', s')
               = (case classic_loop (case sm_corpus m of None \<Rightarrow> None | Some a \<Rightarrow> doc_objs s2 a)
                         (get_documents_without_answer (sm_config m))
                         (\<lambda>t. sm_is_answer_in_text m t (answers ex)) (py_slice_to L ?n) [] of
                    Inl e \<Rightarrow> Inl e
                  | Inr docs \<Rightarrow> Inr (py_slice_to docs ?n))"
        by blast
      have run: "st_get_classic_documents m ex s = (r', s')"
        unfolding start using Inr t by (simp add: st_bind_def)
      have cp2: "(case sm_corpus m of None \<Rightarrow> None | Some a \<Rightarrow> doc_objs s2 a) = corpus ?M"
        using cp [of s2] d2 by simp
      have pure: "get_classic_documents ?M ex
               = (case classic_loop (corpus ?M)
                         (get_documents_without_answer (sm_config m))
                         (\<lambda>t. sm_is_answer_in_text m t (answers ex)) (py_slice_to L ?n) [] of
                    Inl e \<Rightarrow> Inl e
                  | Inr docs \<Rightarrow> Inr (py_slice_to docs ?n))"
        using ci L(1)
        by (simp add: get_classic_documents_def manager_of_def cong: sum.case_cong)
      have "unchanged_below (fresh s) s s'"
        unfolding unchanged_below_def
      proof (intro conjI allI impI)
        show "fresh s \<le> fresh s'" using f2 f3 by simp
        fix b assume b: "b < fresh s"
        then have b2: "b < fresh s2" "b < fresh ?s1" "b \<noteq> ?d" using f2 by simp_all
        show "idx_objs s' b = idx_objs s b" using u3 i2 b2 by simp
        show "doc_objs s' b = doc_objs s b" using u3 d2 b2 by simp
      qed
      with run o3 cp2 pure show ?thesis by simp
    qed
  qed
qed

lemma st_two_table_run:
  assumes t1: "table_ok s t1" and t2: "table_ok s t2"
    and c: "case sm_corpus m of None \<Rightarrow> True | Some a \<Rightarrow> a < fresh s"
  shows "unchanged_below (fresh s) s (snd (st_two_table_documents m t1 n1 t2 n2 ff ex s))
       \<and> outcome (st_two_table_documents m t1 n1 t2 n2 ff ex s)
           = (case table_lookup (table_of s t1) (example_id ex) of
                Inl e \<Rightarrow> Inl e
              | Inr r1 \<Rightarrow>
                  (case table_lookup (table_of s t2) (example_id ex) of
                     Inl e \<Rightarrow> Inl e
                   | Inr r2 \<Rightarrow>
                       fetch_documents
                         (case sm_corpus m of None \<Rightarrow> None | Some a \<Rightarrow> doc_objs s a)
                         (if ff then py_slice_to_opt r1 n1 @ py_slice_to_opt r2 n2
                          else py_slice_to_opt r2 n2 @ py_slice_to_opt r1 n1)))"
proof -
  let ?F = "st_two_table_documents m t1 n1 t2 n2 ff ex"
  from wf_table_lookup [OF t1, of "example_id ex"]
  consider e where "st_table_lookup t1 (example_id ex) s = (Inl e, s)"
        "table_lookup (table_of s t1) (example_id ex) = Inl e"
    | a1 xs where "st_table_lookup t1 (example_id ex) s = (Inr a1, s)"
        "a1 < fresh s" "idx_objs s a1 = Some xs"
        "table_lookup (table_of s t1) (example_id ex) = Inr xs"
    by auto
  then show ?thesis
  proof cases
    case 1
    then show ?thesis
      by (simp add: st_two_table_documents_def st_bind_def unchanged_below_def outcome_def)
  next
    case first: 2
    let ?L1 = "py_slice_to_opt xs n1"
    let ?s1 = "s\<lparr> idx_objs := (idx_objs s)(fresh s \<mapsto> ?L1), fresh := Suc (fresh s) \<rparr>"
    have tl: "st_table_lookup t2 (example_id ex) ?s1
                = (fst (st_table_lookup t2 (example_id ex) s), ?s1)"
      by (simp add: st_table_lookup_def st_raise_def st_return_def split: option.splits)
    from wf_table_lookup [OF t2, of "example_id ex"]
    consider e where "st_table_lookup t2 (example_id ex) s = (Inl e, s)"
          "table_lookup (table_of s t2) (example_id ex) = Inl e"
      | a2 ys where "st_table_lookup t2 (example_id ex) s = (Inr a2, s)"
          "a2 < fresh s" "idx_objs s a2 = Some ys"
          "table_lookup (table_of s t2) (example_id ex) = Inr ys"
      by auto
    then show ?thesis
    proof cases
      case 1
      then have "?F s = (Inl e, ?s1)"
        using first tl
        by (simp add: st_two_table_documents_def st_bind_def st_slice_to_def read_idx_def
                      alloc_idx_def)
      then show ?thesis
        using first 1 by (simp add: unchanged_below_def outcome_def)
    next
      case second: 2
      let ?L2 = "py_slice_to_opt ys n2"
      let ?idxs = "if ff then ?L1 @ ?L2 else ?L2 @ ?L1"
      let ?d = "Suc (Suc (fresh s))"
      let ?s4 = "s\<lparr> doc_objs := (doc_objs s)(?d \<mapsto> []),
                      idx_objs := (idx_objs s)(fresh s \<mapsto> ?L1, Suc (fresh s) \<mapsto> ?L2,
                                               Suc (Suc (Suc (fresh s))) \<mapsto> ?idxs),
                      fresh := Suc (Suc (Suc (Suc (fresh s)))) \<rparr>"
      let ?cp = "case sm_corpus m of None \<Rightarrow> None | Some a \<Rightarrow> doc_objs s a"
      have front: "?F s = st_bind (st_fetch_loop m ?d ?idxs) (\<lambda>_. st_return ?d) ?s4"
        using first second tl
        by (simp add: st_two_table_documents_def st_bind_def st_slice_to_def st_concat_def
                      read_idx_def alloc_idx_def alloc_docs_def)
      have d4: "doc_objs ?s4 ?d = Some []" by simp
      have cnd: "sm_corpus m \<noteq> Some ?d" using c by (auto split: option.splits)
      have cp4: "(case sm_corpus m of None \<Rightarrow> None | Some a \<Rightarrow> doc_objs ?s4 a) = ?cp"
        using c by (auto split: option.splits)
      from st_fetch_loop_run [OF d4 cnd, of ?idxs, unfolded cp4]
      obtain acc' where
        run: "st_fetch_loop m ?d ?idxs ?s4
                = (map_sum id (\<lambda>r. ()) (fetch_documents ?cp ?idxs),
                   ?s4\<lparr> doc_objs := (doc_objs ?s4)(?d \<mapsto> acc') \<rparr>)"
        and res: "\<forall>r. fetch_documents ?cp ?idxs = Inr r \<longrightarrow> acc' = [] @ r"
        by blast
      let ?s5 = "?s4\<lparr> doc_objs := (doc_objs ?s4)(?d \<mapsto> acc') \<rparr>"
      have fr: "unchanged_below (fresh s) s ?s5"
        by (simp add: unchanged_below_def)
      show ?thesis
      proof (cases "fetch_documents ?cp ?idxs")
        case (Inl e)
        then have "?F s = (Inl e, ?s5)"
          unfolding front using run by (simp add: st_bind_def)
        with fr first second Inl show ?thesis by (simp add: outcome_def)
      next
        case (Inr docs)
        with res have "acc' = docs" by simp
        with Inr have "?F s = (Inr ?d, ?s5)" "doc_objs ?s5 ?d = Some docs"
          unfolding front using run by (simp_all add: st_bind_def st_return_def)
        with fr first second Inr show ?thesis by (simp add: outcome_def)
      qed
    qed
  qed
qed

lemma manager_of_simps:
  "config (manager_of s m) = sm_config m"
  "corpus (manager_of s m) = (case sm_corpus m of None \<Rightarrow> None | Some a \<Rightarrow> doc_objs s a)"
  "retriever_results (manager_of s m) = table_of s (sm_retriever_results m)"
  "random_results (manager_of s m) = table_of s (sm_random_results m)"
  "main_results (manager_of s m) = table_of s (sm_main_results m)"
  "other_results (manager_of s m) = table_of s (sm_other_results m)"
  by (simp_all add: manager_of_def)

lemma st_get_documents_run:
  assumes wf: "wf_store s m"
  shows "unchanged_below (fresh s) s (snd (st_get_documents m ex s))
       \<and> outcome (st_get_documents m ex s) = get_documents (manager_of s m) ex"
proof -
  from wf have c: "case sm_corpus m of None \<Rightarrow> True | Some a \<Rightarrow> a < fresh s"
    and t: "table_ok s (sm_retriever_results m)" "table_ok s (sm_random_results m)"
           "table_ok s (sm_main_results m)" "table_ok s (sm_other_results m)"
    by (auto simp: wf_store_def split: option.splits)
  have mixed: "get_mixed_documents (manager_of s m) ex
     = (case table_lookup (table_of s (sm_retriever_results m)) (example_id ex) of
                Inl e \<Rightarrow> Inl e
              | Inr r1 \<Rightarrow>
                  (case table_lookup (table_of s (sm_random_results m)) (example_id ex) of
                     Inl e \<Rightarrow> Inl e
                   | Inr r2 \<Rightarrow>
                       fetch_documents
                         (case sm_corpus m of None \<Rightarrow> None | Some a \<Rightarrow> doc_objs s a)
                         (if put_retrieved_first (sm_config m)
                          then py_slice_to_opt r1 (num_retrieved_documents (sm_config m))
                               @ py_slice_to_opt r2 (num_random_documents (sm_config m))
                          else py_slice_to_opt r2 (num_random_documents (sm_config m))
                               @ py_slice_to_opt r1 (num_retrieved_documents (sm_config m)))))"
    by (simp add: get_mixed_documents_def manager_of_simps Let_def cong: sum.case_cong)
  have multi: "get_multi_corpus_documents (manager_of s m) ex
     = (case table_lookup (table_of s (sm_main_results m)) (example_id ex) of
                Inl e \<Rightarrow> Inl e
              | Inr r1 \<Rightarrow>
                  (case table_lookup (table_of s (sm_other_results m)) (example_id ex) of
                     Inl e \<Rightarrow> Inl e
                   | Inr r2 \<Rightarrow>
                       fetch_documents
                         (case sm_corpus m of None \<Rightarrow> None | Some a \<Rightarrow> doc_objs s a)
                         (if put_main_first (sm_config m)
                          then py_slice_to_opt r1 (num_main_documents (sm_config m))
                               @ py_slice_to_opt r2 (num_other_documents (sm_config m))
                          else py_slice_to_opt r2 (num_other_documents (sm_config m))
                               @ py_slice_to_opt r1 (num_main_documents (sm_config m)))))"
    by (simp add: get_multi_corpus_documents_def manager_of_simps Let_def cong: sum.case_cong)
  show ?thesis
    using st_classic_run [OF wf, of ex]
          st_two_table_run [OF t(1) t(2) c, of "num_retrieved_documents (sm_config m)"
             "num_random_documents (sm_config m)" "put_retrieved_first (sm_config m)" ex]
          st_two_table_run [OF t(3) t(4) c, of "num_main_documents (sm_config m)"
             "num_other_documents (sm_config m)" "put_main_first (sm_config m)" ex]
    by (simp add: st_get_documents_def get_documents_def manager_of_simps
                  st_get_mixed_documents_def st_get_multi_corpus_documents_def mixed multi)
qed

lemma unchanged_keeps_manager:
  assumes wf: "wf_store s m" and u: "unchanged_below (fresh s) s s'"
  shows "wf_store s' m \<and> manager_of s' m = manager_of s m"
proof -
  have tab: "table_ok s' t \<and> table_of s' t = table_of s t" if ok: "table_ok s t" for t
  proof (cases t)
    case None
    then show ?thesis by (simp add: table_ok_def table_of_def)
  next
    case (Some tbl)
    have pt: "a < fresh s \<and> idx_objs s a \<noteq> None \<and> idx_objs s' a = idx_objs s a"
      if "tbl idx = Some a" for idx a
    proof -
      from that have "a \<in> ran tbl" by (auto simp: ran_def)
      with ok Some have "a < fresh s" "idx_objs s a \<noteq> None" by (auto simp: table_ok_def)
      with u show ?thesis by (simp add: unchanged_below_def)
    qed
    have "a < fresh s' \<and> idx_objs s' a \<noteq> None" if "a \<in> ran tbl" for a
    proof -
      from that obtain idx where "tbl idx = Some a" by (auto simp: ran_def)
      from pt [OF this] u show ?thesis by (auto simp: unchanged_below_def)
    qed
    then have "table_ok s' t" by (simp add: table_ok_def Some)
    moreover have "table_of s' t = table_of s t"
      unfolding table_of_def Some using pt
      by (auto split: option.splits intro!: ext)
    ultimately show ?thesis by simp
  qed
  from wf have oks: "table_ok s (sm_search_results m)" "table_ok s (sm_retriever_results m)"
    "table_ok s (sm_random_results m)" "table_ok s (sm_main_results m)"
    "table_ok s (sm_other_results m)"
    by (simp_all add: wf_store_def)
  have cor: "(case sm_corpus m of None \<Rightarrow> True | Some a \<Rightarrow> a < fresh s' \<and> doc_objs s' a \<noteq> None)
           \<and> (case sm_corpus m of None \<Rightarrow> None | Some a \<Rightarrow> doc_objs s' a)
             = (case sm_corpus m of None \<Rightarrow> None | Some a \<Rightarrow> doc_objs s a)"
    using wf u by (auto simp: wf_store_def unchanged_below_def split: option.splits)
  show ?thesis
    using tab [OF oks(1)] tab [OF oks(2)] tab [OF oks(3)] tab [OF oks(4)] tab [OF oks(5)] cor
    by (simp add: wf_store_def manager_of_def)
qed

lemma gold_store_wf: "wf_store gold_store gold_store_manager"
  by (simp add: wf_store_def table_ok_def gold_store_def gold_store_manager_def)

lemma gold_store_first_run:
  "outcome (st_get_documents gold_store_manager example_z gold_store) = Inr [D1, D0, D2]"
  by code_simp

text \<open>
  C9. The assembler is run over a store in which the ranked lists, the corpus and the
  lists it builds are objects. From a store that is well formed for the manager, a run
  leaves every object that existed before it as it was (it allocates new lists and
  appends only to a list of its own), and a second run, started from the store the first
  one left, gives the same ordered document list, or the same error. What both give is
  the value of \<open>get_documents\<close> for the manager the store stands for.
\<close>

theorem assembler_rerun_identical:
  assumes wf: "wf_store s m"
    and run1: "st_get_documents m ex s = (r1, s1)"
    and run2: "st_get_documents m ex s1 = (r2, s2)"
  shows "unchanged_below (fresh s) s s1
       \<and> outcome (r2, s2) = outcome (r1, s1)
       \<and> outcome (r1, s1) = get_documents (manager_of s m) ex"
proof -
  from st_get_documents_run [OF wf, of ex] run1
  have u: "unchanged_below (fresh s) s s1"
    and o1: "outcome (r1, s1) = get_documents (manager_of s m) ex"
    by simp_all
  from unchanged_keeps_manager [OF wf u]
  have wf1: "wf_store s1 m" and same: "manager_of s1 m = manager_of s m"
    by simp_all
  from st_get_documents_run [OF wf1, of ex] run2
  have "outcome (r2, s2) = get_documents (manager_of s1 m) ex" by simp
  with same o1 u show ?thesis by simp
qed

theorem assembler_rerun_identical_witness:
  "wf_store gold_store gold_store_manager
   \<and> outcome (st_get_documents gold_store_manager example_z gold_store) = Inr [D1, D0, D2]
   \<and> outcome (st_get_documents gold_store_manager example_z
                (snd (st_get_documents gold_store_manager example_z gold_store)))
       = Inr [D1, D0, D2]
   \<and> idx_objs (snd (st_get_documents gold_store_manager example_z gold_store)) 0
       = Some [1, 2]"
proof -
  let ?R1 = "st_get_documents gold_store_manager example_z gold_store"
  let ?R2 = "st_get_documents gold_store_manager example_z (snd ?R1)"
  have e1: "?R1 = (fst ?R1, snd ?R1)" and e2: "?R2 = (fst ?R2, snd ?R2)" by simp_all
  from assembler_rerun_identical [OF gold_store_wf e1 e2]
  have u: "unchanged_below (fresh gold_store) gold_store (snd ?R1)"
    and o: "outcome ?R2 = outcome ?R1"
    by simp_all
  from u have "idx_objs (snd ?R1) 0 = idx_objs gold_store 0"
    by (simp add: unchanged_below_def gold_store_def)
  then have "idx_objs (snd ?R1) 0 = Some [1, 2]" by (simp add: gold_store_def)
  with o gold_store_wf gold_store_first_run show ?thesis by simp
qed

section \<open>Answer extraction\<close>

lemma find_from_first:
  "i \<le> length s \<Longrightarrow> prefix sub (drop i s) \<Longrightarrow> \<forall>j<i. \<not> prefix sub (drop j s)
     \<Longrightarrow> find_from sub s k = int (k + i)"
proof (induction s arbitrary: i k)
  case Nil
  then show ?case by simp
next
  case (Cons c cs)
  show ?case
  proof (cases i)
    case 0
    with Cons.prems show ?thesis by simp
  next
    case (Suc i')
    with Cons.prems have np: "\<not> prefix sub (c # cs)" by (metis drop0 zero_less_Suc)
    have "\<forall>j<i'. \<not> prefix sub (drop j cs)"
    proof (intro allI impI)
      fix j assume "j < i'"
      then have "Suc j < i" using Suc by simp
      with Cons.prems(3) have "\<not> prefix sub (drop (Suc j) (c # cs))" by blast
      then show "\<not> prefix sub (drop j cs)" by simp
    qed
    moreover from Cons.prems Suc have "i' \<le> length cs" "prefix sub (drop i' cs)" by simp_all
    ultimately have "find_from sub cs (Suc k) = int (Suc k + i')"
      using Cons.IH by blast
    with np Suc show ?thesis by simp
  qed
qed

lemma py_slice_from_int: "py_slice_from xs (int n) = drop n xs"
  by (simp add: py_slice_from_def)

lemma prefix_drop_sublist: "prefix sub (drop i s) \<Longrightarrow> sublist sub s"
  by (metis append_take_drop_id prefix_def sublist_appendI)

text \<open>
  C2, as amended. The generated answer is the response from just after the first
  occurrence of \<open>Answer:\<close> to the end, stripped of surrounding whitespace; when
  \<open>Answer:\<close> does not occur and \<open>### Response:\<close> does, it is the stripped text after
  the first occurrence of \<open>### Response:\<close>.
\<close>

theorem extract_answer_first_marker:
  "(i \<le> length r \<and> prefix ''Answer:'' (drop i r) \<and> (\<forall>j<i. \<not> prefix ''Answer:'' (drop j r))
      \<longrightarrow> extract_answer r = py_strip (drop (i + length ''Answer:'') r))
   \<and> (\<not> sublist ''Answer:'' r \<and> i \<le> length r \<and> prefix ''### Response:'' (drop i r)
        \<and> (\<forall>j<i. \<not> prefix ''### Response:'' (drop j r))
      \<longrightarrow> extract_answer r = py_strip (drop (i + length ''### Response:'') r))"
proof (intro conjI impI)
  assume h: "i \<le> length r \<and> prefix ''Answer:'' (drop i r)
             \<and> (\<forall>j<i. \<not> prefix ''Answer:'' (drop j r))"
  then have "sublist ''Answer:'' r" using prefix_drop_sublist by blast
  moreover from h have "py_find r ''Answer:'' = int i"
    unfolding py_find_def using find_from_first [of i r "''Answer:''" 0] by simp
  ultimately have "answer_start r = int (i + length ''Answer:'')"
    by (simp add: answer_start_def)
  then show "extract_answer r = py_strip (drop (i + length ''Answer:'') r)"
    unfolding extract_answer_def by (simp only: py_slice_from_int)
next
  assume h: "\<not> sublist ''Answer:'' r \<and> i \<le> length r \<and> prefix ''### Response:'' (drop i r)
             \<and> (\<forall>j<i. \<not> prefix ''### Response:'' (drop j r))"
  then have "py_find r ''### Response:'' = int i"
    unfolding py_find_def using find_from_first [of i r "''### Response:''" 0] by simp
  with h have "answer_start r = int (i + length ''### Response:'')"
    by (simp add: answer_start_def)
  then show "extract_answer r = py_strip (drop (i + length ''### Response:'') r)"
    unfolding extract_answer_def by (simp only: py_slice_from_int)
qed

theorem extract_answer_first_marker_witness:
  "extract_answer ''Q Answer: Paris '' = py_strip (drop (2 + length ''Answer:'') ''Q Answer: Paris '')
   \<and> extract_answer ''### Response: Rome''
       = py_strip (drop (0 + length ''### Response:'') ''### Response: Rome'')"
proof -
  have a: "2 \<le> length ''Q Answer: Paris '' \<and> prefix ''Answer:'' (drop 2 ''Q Answer: Paris '')
           \<and> (\<forall>j<2. \<not> prefix ''Answer:'' (drop j ''Q Answer: Paris ''))"
    by (simp add: less_Suc_eq numeral_2_eq_2)
  have b: "\<not> sublist ''Answer:'' ''### Response: Rome'' \<and> 0 \<le> length ''### Response: Rome''
           \<and> prefix ''### Response:'' (drop 0 ''### Response: Rome'')
           \<and> (\<forall>j<0. \<not> prefix ''### Response:'' (drop j ''### Response: Rome''))"
    by (simp add: sublist_code)
  show ?thesis
    using extract_answer_first_marker [of 2 "''Q Answer: Paris ''"] a
          extract_answer_first_marker [of 0 "''### Response: Rome''"] b
    by blast
qed

text \<open>
  A response with two markers: the code returns what follows the first, the last is
  followed by \<open>b\<close>. A response with no marker: the code returns its text from position
  12 on, not the empty string.
\<close>

theorem extract_answer_not_last_marker:
  "extract_answer ''Answer:a Answer:b'' = ''a Answer:b''
   \<and> answer_after_last_marker ''Answer:'' ''Answer:a Answer:b'' = ''b''
   \<and> extract_answer ''The capital is Paris'' = ''is Paris''
   \<and> answer_after_last_marker ''Answer:'' ''The capital is Paris'' = ''''"
  by code_simp

section \<open>Checkpoints\<close>











section \<open>Grading\<close>

lemma only_query_lando:
  "map_sum id (\<lambda>r. (generated_answer r, ans_match_after_norm r))
     (process_example only_query_manager example_x)
   = Inr (''The answer is Lando Calrissian.'', True)"
  by code_simp

lemma only_query_vader:
  "map_sum id (\<lambda>r. (generated_answer r, ans_match_after_norm r))
     (process_example only_query_manager example_y)
   = Inr (''The answer is Lando Calrissian.'', False)"
  by code_simp

text \<open>
  C7. In every result record \<open>ans_match_after_norm\<close> is true exactly when, for some
  gold answer, the normalised gold answer is a substring of the normalised generated
  text. With the normaliser of the specification, a generated text
  \<open>The answer is Lando Calrissian.\<close> matches the gold answer \<open>Lando Calrissian\<close> and
  does not match the gold answer \<open>Darth Vader\<close>.
\<close>

theorem ans_match_after_norm_iff:
  "(process_example m ex = Inr r \<longrightarrow>
      ans_match_after_norm r
        = (\<exists>a\<in>set (answers ex). \<exists>pre post.
             normalize_answer_fn m (generated_answer r) = pre @ normalize_answer_fn m a @ post))
   \<and> map_sum id (\<lambda>r. (generated_answer r, ans_match_after_norm r))
        (process_example only_query_manager example_x)
      = Inr (''The answer is Lando Calrissian.'', True)
   \<and> map_sum id (\<lambda>r. (generated_answer r, ans_match_after_norm r))
        (process_example only_query_manager example_y)
      = Inr (''The answer is Lando Calrissian.'', False)"
proof (intro conjI impI)
  assume "process_example m ex = Inr r"
  then have "ans_match_after_norm r
               = list_ex (\<lambda>ans. sublist (normalize_answer_fn m ans)
                                        (normalize_answer_fn m (generated_answer r)))
                   (answers ex)"
    by (auto simp: process_example_def Let_def split: sum.splits)
  then show "ans_match_after_norm r
        = (\<exists>a\<in>set (answers ex). \<exists>pre post.
             normalize_answer_fn m (generated_answer r) = pre @ normalize_answer_fn m a @ post)"
    by (simp add: list_ex_iff sublist_def)
qed (rule only_query_lando only_query_vader)+

theorem ans_match_after_norm_iff_witness:
  "process_example only_query_manager example_x
     = Inr (projr (process_example only_query_manager example_x))
   \<and> ans_match_after_norm (projr (process_example only_query_manager example_x))
       = (\<exists>a\<in>set (answers example_x). \<exists>pre post.
            normalize_answer_fn only_query_manager
              (generated_answer (projr (process_example only_query_manager example_x)))
            = pre @ normalize_answer_fn only_query_manager a @ post)"
proof -
  have "\<not> isl (process_example only_query_manager example_x)"
    using only_query_lando by (cases "process_example only_query_manager example_x") auto
  then have e: "process_example only_query_manager example_x
                  = Inr (projr (process_example only_query_manager example_x))"
    by simp
  show ?thesis
    using e ans_match_after_norm_iff
            [of only_query_manager example_x
                "projr (process_example only_query_manager example_x)"]
    by blast
qed

section \<open>Records of examples with documents\<close>

lemma all_strs_dicts: "all_strs (map PyDict ds) = (if ds = [] then Some [] else None)"
  by (cases ds) auto

lemma nonempty_documents_raise:
  assumes "experiment_type (config m) \<noteq> ''only_query''"
    and "get_documents m ex = Inr (d # ds)"
  shows "process_example m ex = Inl TypeError"
  using assms
  by (simp add: process_example_def example_documents_def build_prompt_def py_join_def
                all_strs_dicts)

lemma empty_documents_record:
  "map_sum id (\<lambda>r. (document_indices r, ans_in_documents r))
     (process_example classic_manager_one example_x) = Inr (Some [], None)"
  by code_simp

lemma produced_record_fields:
  assumes "process_example m ex = Inr r" and "experiment_type (config m) \<noteq> ''only_query''"
  shows "get_documents m ex = Inr [] \<and> document_indices r = Some [] \<and> ans_in_documents r = None"
  using assms
  by (auto simp: process_example_def example_documents_def build_prompt_def py_join_def Let_def
                 all_strs_dicts
           split: sum.splits if_splits)

text \<open>
  C10. For an example of a family with documents, the record holds the document indices,
  and it holds the field \<open>ans_in_documents\<close> exactly when the context is not empty.
  The code does not get that far for a context that is not empty: the manager passes
  the document dictionaries to \<open>_build_prompt\<close>, which joins them as strings. For
  the classic manager whose context is the one document \<open>D1\<close>, the example raises
  TypeError and no record is produced.
\<close>

theorem documents_in_context_raise_type_error:
  "experiment_type (config classic_manager) \<noteq> ''only_query''
   \<and> get_documents classic_manager example_x = Inr [D1]
   \<and> process_example classic_manager example_x = Inl TypeError"
proof -
  have t: "experiment_type (config classic_manager) \<noteq> ''only_query''"
    by (simp add: classic_manager_def default_config_def)
  have g: "get_documents classic_manager example_x = Inr [D1]"
    using classic_manager_documents
    by (simp add: get_documents_def classic_manager_def default_config_def)
  from t g nonempty_documents_raise [OF t g] show ?thesis by blast
qed

end
